theory Spec2Isabelle
  imports Main "HOL-Library.Word"
begin

unbundle bit_operations_syntax

section \<open>Common data of evm\_trace.cpp\<close>

text \<open>
  Machine integers are words; addresses are 20-byte values; byte strings
  (\<open>silkworm::Bytes\<close>, \<open>evmone::bytes_view\<close>) are lists of bytes; \<open>std::string\<close> is
  \<open>string\<close>. Vector sizes and indices are \<open>nat\<close>. An access the C++ leaves
  undefined (reading a vector or a buffer out of range, \<open>top\<close>/\<open>pop\<close> on an empty
  \<open>std::stack\<close>, dereferencing an empty \<open>std::optional\<close> or a null pointer) is a
  branch of the model that returns \<open>Inl\<close> of an \<open>error\<close>.
\<close>

type_synonym u8 = "8 word"
type_synonym u32 = "32 word"
type_synonym u64 = "64 word"
type_synonym u256 = "256 word"
type_synonym address = "160 word"
type_synonym bytes = "u8 list"

datatype error =
  OpsOutOfRange          \<comment> \<open>\<open>vm_trace.ops[i]\<close> with \<open>i \<ge> ops.size()\<close>\<close>
| TracesOutOfRange       \<comment> \<open>\<open>traces_[i]\<close> with \<open>i \<ge> traces_.size()\<close>\<close>
| MemoryOutOfRange       \<comment> \<open>a read of \<open>memory.data()\<close> at or past \<open>memory.size()\<close>\<close>
| CodeOutOfRange         \<comment> \<open>\<open>execution_state.code[pc]\<close> with \<open>pc \<ge> code.size()\<close>\<close>
| EmptyStack             \<comment> \<open>\<open>top()\<close> or \<open>pop()\<close> of an empty \<open>std::stack\<close>\<close>
| EmptyOptional          \<comment> \<open>\<open>-&gt;\<close> on a disengaged \<open>std::optional\<close>\<close>
| NullPointer            \<comment> \<open>the opcode name table before any execution start\<close>
| DanglingReference      \<comment> \<open>a \<open>VmTrace\<close> handle that is not in the store\<close>
| IntOverflow            \<comment> \<open>signed overflow of an \<open>int\<close> loop counter\<close>

text \<open>\<open>evmc_status_code\<close>, \<open>evmc_call_kind\<close> (evmc.h).\<close>

datatype evmc_status_code =
  EVMC_SUCCESS | EVMC_FAILURE | EVMC_REVERT | EVMC_OUT_OF_GAS
| EVMC_INVALID_INSTRUCTION | EVMC_UNDEFINED_INSTRUCTION
| EVMC_STACK_OVERFLOW | EVMC_STACK_UNDERFLOW | EVMC_BAD_JUMP_DESTINATION
| EVMC_INVALID_MEMORY_ACCESS | EVMC_CALL_DEPTH_EXCEEDED
| EVMC_STATIC_MODE_VIOLATION | EVMC_PRECOMPILE_FAILURE
| EVMC_CONTRACT_VALIDATION_FAILURE | EVMC_ARGUMENT_OUT_OF_RANGE
| EVMC_WASM_UNREACHABLE_INSTRUCTION | EVMC_WASM_TRAP
| EVMC_INSUFFICIENT_BALANCE | EVMC_INTERNAL_ERROR | EVMC_REJECTED
| EVMC_OUT_OF_MEMORY

datatype evmc_call_kind =
  EVMC_CALL | EVMC_DELEGATECALL | EVMC_CALLCODE | EVMC_CREATE | EVMC_CREATE2

text \<open>\<open>evmc_message\<close>: the fields the tracers read. \<open>msg_value\<close> is the 32-byte
  big-endian value already loaded as a 256-bit number.\<close>

record evmc_message =
  msg_kind :: evmc_call_kind
  msg_flags :: u32
  msg_depth :: int
  msg_gas :: u64
  msg_recipient :: address
  msg_sender :: address
  msg_input :: bytes
  msg_value :: u256
  msg_code_address :: address

text \<open>\<open>evmc_result\<close>: status, gas left and output bytes.\<close>

record evmc_result =
  res_status_code :: evmc_status_code
  res_gas_left :: u64
  res_output :: bytes

abbreviation (input) EVMC_STATIC :: u32 where "EVMC_STATIC \<equiv> 1"

subsection \<open>Opcodes (evmc/instructions.h)\<close>

abbreviation (input) OP_STOP :: u8 where "OP_STOP \<equiv> 0x00"
abbreviation (input) OP_ADD :: u8 where "OP_ADD \<equiv> 0x01"
abbreviation (input) OP_MUL :: u8 where "OP_MUL \<equiv> 0x02"
abbreviation (input) OP_SUB :: u8 where "OP_SUB \<equiv> 0x03"
abbreviation (input) OP_DIV :: u8 where "OP_DIV \<equiv> 0x04"
abbreviation (input) OP_SDIV :: u8 where "OP_SDIV \<equiv> 0x05"
abbreviation (input) OP_MOD :: u8 where "OP_MOD \<equiv> 0x06"
abbreviation (input) OP_ADDMOD :: u8 where "OP_ADDMOD \<equiv> 0x08"
abbreviation (input) OP_MULMOD :: u8 where "OP_MULMOD \<equiv> 0x09"
abbreviation (input) OP_EXP :: u8 where "OP_EXP \<equiv> 0x0a"
abbreviation (input) OP_SIGNEXTEND :: u8 where "OP_SIGNEXTEND \<equiv> 0x0b"
abbreviation (input) OP_LT :: u8 where "OP_LT \<equiv> 0x10"
abbreviation (input) OP_GT :: u8 where "OP_GT \<equiv> 0x11"
abbreviation (input) OP_SLT :: u8 where "OP_SLT \<equiv> 0x12"
abbreviation (input) OP_SGT :: u8 where "OP_SGT \<equiv> 0x13"
abbreviation (input) OP_EQ :: u8 where "OP_EQ \<equiv> 0x14"
abbreviation (input) OP_ISZERO :: u8 where "OP_ISZERO \<equiv> 0x15"
abbreviation (input) OP_AND :: u8 where "OP_AND \<equiv> 0x16"
abbreviation (input) OP_OR :: u8 where "OP_OR \<equiv> 0x17"
abbreviation (input) OP_XOR :: u8 where "OP_XOR \<equiv> 0x18"
abbreviation (input) OP_NOT :: u8 where "OP_NOT \<equiv> 0x19"
abbreviation (input) OP_BYTE :: u8 where "OP_BYTE \<equiv> 0x1a"
abbreviation (input) OP_SHL :: u8 where "OP_SHL \<equiv> 0x1b"
abbreviation (input) OP_SHR :: u8 where "OP_SHR \<equiv> 0x1c"
abbreviation (input) OP_SAR :: u8 where "OP_SAR \<equiv> 0x1d"
abbreviation (input) OP_KECCAK256 :: u8 where "OP_KECCAK256 \<equiv> 0x20"
abbreviation (input) OP_ADDRESS :: u8 where "OP_ADDRESS \<equiv> 0x30"
abbreviation (input) OP_BALANCE :: u8 where "OP_BALANCE \<equiv> 0x31"
abbreviation (input) OP_ORIGIN :: u8 where "OP_ORIGIN \<equiv> 0x32"
abbreviation (input) OP_CALLER :: u8 where "OP_CALLER \<equiv> 0x33"
abbreviation (input) OP_CALLVALUE :: u8 where "OP_CALLVALUE \<equiv> 0x34"
abbreviation (input) OP_CALLDATALOAD :: u8 where "OP_CALLDATALOAD \<equiv> 0x35"
abbreviation (input) OP_CALLDATASIZE :: u8 where "OP_CALLDATASIZE \<equiv> 0x36"
abbreviation (input) OP_CALLDATACOPY :: u8 where "OP_CALLDATACOPY \<equiv> 0x37"
abbreviation (input) OP_CODESIZE :: u8 where "OP_CODESIZE \<equiv> 0x38"
abbreviation (input) OP_CODECOPY :: u8 where "OP_CODECOPY \<equiv> 0x39"
abbreviation (input) OP_GASPRICE :: u8 where "OP_GASPRICE \<equiv> 0x3a"
abbreviation (input) OP_EXTCODESIZE :: u8 where "OP_EXTCODESIZE \<equiv> 0x3b"
abbreviation (input) OP_RETURNDATASIZE :: u8 where "OP_RETURNDATASIZE \<equiv> 0x3d"
abbreviation (input) OP_RETURNDATACOPY :: u8 where "OP_RETURNDATACOPY \<equiv> 0x3e"
abbreviation (input) OP_EXTCODEHASH :: u8 where "OP_EXTCODEHASH \<equiv> 0x3f"
abbreviation (input) OP_BLOCKHASH :: u8 where "OP_BLOCKHASH \<equiv> 0x40"
abbreviation (input) OP_TIMESTAMP :: u8 where "OP_TIMESTAMP \<equiv> 0x42"
abbreviation (input) OP_NUMBER :: u8 where "OP_NUMBER \<equiv> 0x43"
abbreviation (input) OP_GASLIMIT :: u8 where "OP_GASLIMIT \<equiv> 0x45"
abbreviation (input) OP_SELFBALANCE :: u8 where "OP_SELFBALANCE \<equiv> 0x47"
abbreviation (input) OP_BASEFEE :: u8 where "OP_BASEFEE \<equiv> 0x48"
abbreviation (input) OP_MLOAD :: u8 where "OP_MLOAD \<equiv> 0x51"
abbreviation (input) OP_MSTORE :: u8 where "OP_MSTORE \<equiv> 0x52"
abbreviation (input) OP_MSTORE8 :: u8 where "OP_MSTORE8 \<equiv> 0x53"
abbreviation (input) OP_SLOAD :: u8 where "OP_SLOAD \<equiv> 0x54"
abbreviation (input) OP_SSTORE :: u8 where "OP_SSTORE \<equiv> 0x55"
abbreviation (input) OP_PC :: u8 where "OP_PC \<equiv> 0x58"
abbreviation (input) OP_MSIZE :: u8 where "OP_MSIZE \<equiv> 0x59"
abbreviation (input) OP_GAS :: u8 where "OP_GAS \<equiv> 0x5a"
abbreviation (input) OP_PUSH1 :: u8 where "OP_PUSH1 \<equiv> 0x60"
abbreviation (input) OP_PUSH32 :: u8 where "OP_PUSH32 \<equiv> 0x7f"
abbreviation (input) OP_DUP1 :: u8 where "OP_DUP1 \<equiv> 0x80"
abbreviation (input) OP_DUP16 :: u8 where "OP_DUP16 \<equiv> 0x8f"
abbreviation (input) OP_SWAP1 :: u8 where "OP_SWAP1 \<equiv> 0x90"
abbreviation (input) OP_SWAP16 :: u8 where "OP_SWAP16 \<equiv> 0x9f"
abbreviation (input) OP_CREATE :: u8 where "OP_CREATE \<equiv> 0xf0"
abbreviation (input) OP_CALL :: u8 where "OP_CALL \<equiv> 0xf1"
abbreviation (input) OP_CALLCODE :: u8 where "OP_CALLCODE \<equiv> 0xf2"
abbreviation (input) OP_DELEGATECALL :: u8 where "OP_DELEGATECALL \<equiv> 0xf4"
abbreviation (input) OP_CREATE2 :: u8 where "OP_CREATE2 \<equiv> 0xf5"
abbreviation (input) OP_STATICCALL :: u8 where "OP_STATICCALL \<equiv> 0xfa"

subsection \<open>Formatting helpers of the libraries\<close>

text \<open>One lowercase hexadecimal digit, and \<open>evmc::hex\<close> of one byte (two digits).\<close>

definition hex_digit :: "nat \<Rightarrow> char" where
  "hex_digit n = ''0123456789abcdef'' ! (n mod 16)"

definition hex_byte :: "u8 \<Rightarrow> string" where
  "hex_byte b = [hex_digit (unat b div 16), hex_digit (unat b mod 16)]"

text \<open>\<open>silkworm::to_hex\<close> of a byte string: two digits per byte, no prefix.\<close>

definition to_hex :: "bytes \<Rightarrow> string" where
  "to_hex bs = concat (map hex_byte bs)"

text \<open>\<open>intx::to_string(x, 16)\<close>: hexadecimal without leading zeros, \<open>0\<close> for zero.\<close>

function hex_of_nat :: "nat \<Rightarrow> string" where
  "hex_of_nat n =
     (if n < 16 then [hex_digit n] else hex_of_nat (n div 16) @ [hex_digit (n mod 16)])"
  by pat_completeness auto
termination
  by (relation "measure id") auto

declare hex_of_nat.simps [simp del]

text \<open>\<open>std::to_string\<close> of an unsigned and of a signed integer.\<close>

function dec_of_nat :: "nat \<Rightarrow> string" where
  "dec_of_nat n =
     (if n < 10 then [hex_digit n] else dec_of_nat (n div 10) @ [hex_digit (n mod 10)])"
  by pat_completeness auto
termination
  by (relation "measure id") auto

declare dec_of_nat.simps [simp del]

definition dec_of_int :: "int \<Rightarrow> string" where
  "dec_of_int i = (if i < 0 then CHR ''-'' # dec_of_nat (nat (- i)) else dec_of_nat (nat i))"

text \<open>The 20 bytes of an address, most significant first.\<close>

definition address_bytes :: "address \<Rightarrow> bytes" where
  "address_bytes a = map (\<lambda>i. ucast (drop_bit (8 * (19 - i)) a)) [0..<20]"

section \<open>VmTrace\<close>

text \<open>
  \<open>TraceMemory\<close>, \<open>TraceStorage\<close>, \<open>TraceEx\<close>, \<open>TraceOp\<close>, \<open>VmTrace\<close> as the functions
  of evm\_trace.cpp use them. \<open>TraceOp::sub\<close> is a \<open>std::shared_ptr&lt;VmTrace&gt;\<close>: here a
  handle into a store of \<open>VmTrace\<close> nodes, \<open>None\<close> for the null pointer.
\<close>

record TraceMemory =
  tm_offset :: u64
  tm_len :: u64
  tm_data :: string

record TraceStorage =
  ts_key :: string
  ts_value :: string

record TraceEx =
  ex_memory :: "TraceMemory option"
  ex_stack :: "string list"
  ex_storage :: "TraceStorage option"
  ex_used :: u64

record TraceOp =
  op_gas_cost :: u64
  op_trace_ex :: TraceEx
  op_idx :: string
  op_depth :: int
  op_code :: u8
  op_name :: string
  op_pc :: u32
  op_sub :: "nat option"
  op_call_gas_cap :: "u64 option"
  op_precompiled_call_gas :: "u64 option"

record VmTrace =
  vt_code :: string
  vt_ops :: "TraceOp list"

definition empty_TraceEx :: TraceEx where
  "empty_TraceEx = \<lparr>ex_memory = None, ex_stack = [], ex_storage = None, ex_used = 0\<rparr>"

definition empty_VmTrace :: VmTrace where
  "empty_VmTrace = \<lparr>vt_code = [], vt_ops = []\<rparr>"

subsection \<open>get\_stack\_count, copy\_stack\<close>

definition one_result_opcodes :: "u8 list" where
  "one_result_opcodes =
     [OP_CALLDATALOAD, OP_SLOAD, OP_MLOAD, OP_CALLDATASIZE, OP_LT, OP_GT, OP_DIV, OP_SDIV,
      OP_SAR, OP_AND, OP_EQ, OP_CALLVALUE, OP_ISZERO, OP_ADD, OP_EXP, OP_CALLER,
      OP_KECCAK256, OP_SUB, OP_ADDRESS, OP_GAS, OP_MUL, OP_RETURNDATASIZE, OP_NOT, OP_SHR,
      OP_SHL, OP_EXTCODESIZE, OP_SLT, OP_OR, OP_NUMBER, OP_PC, OP_TIMESTAMP, OP_BALANCE,
      OP_SELFBALANCE, OP_MULMOD, OP_ADDMOD, OP_BASEFEE, OP_BLOCKHASH, OP_BYTE, OP_XOR,
      OP_ORIGIN, OP_CODESIZE, OP_MOD, OP_SIGNEXTEND, OP_GASLIMIT, OP_SGT, OP_GASPRICE,
      OP_MSIZE, OP_EXTCODEHASH, OP_STATICCALL, OP_DELEGATECALL, OP_CALL, OP_CALLCODE,
      OP_CREATE, OP_CREATE2]"

definition get_stack_count :: "u8 \<Rightarrow> nat" where
  "get_stack_count c =
     (if OP_PUSH1 \<le> c \<and> c \<le> OP_PUSH32 then 1
      else if OP_SWAP1 \<le> c \<and> c \<le> OP_SWAP16 then unat c - unat OP_SWAP1 + 2
      else if OP_DUP1 \<le> c \<and> c \<le> OP_DUP16 then unat c - unat OP_DUP1 + 2
      else if c \<in> set one_result_opcodes then 1
      else 0)"

text \<open>
  The EVM stack is seen through the pointer \<open>stack_top\<close>: \<open>stack i\<close> stands for
  \<open>stack_top[-i]\<close>. The loop of \<open>copy_stack\<close> runs \<open>i\<close> from \<open>top - 1\<close> down to \<open>0\<close>
  and appends \<open>0x\<close> and the hexadecimal of \<open>stack[-i]\<close>.
\<close>

definition copy_stack :: "u8 \<Rightarrow> (nat \<Rightarrow> u256) \<Rightarrow> string list \<Rightarrow> string list" where
  "copy_stack c stack trace_stack =
     trace_stack @ map (\<lambda>i. ''0x'' @ hex_of_nat (unat (stack i))) (rev [0..<get_stack_count c])"

subsection \<open>copy\_memory, copy\_store, copy\_memory\_offset\_len\<close>

text \<open>
  The loop of \<open>copy_memory\<close>: \<open>for (int idx = 0; idx &lt; tm.len; idx++)\<close> appends the two
  hexadecimal digits of the byte at \<open>data + start + idx\<close>. The memory is the byte list
  of length \<open>memory.size()\<close>; the source reads through the raw pointer with no check,
  so a read at or past the size is the error branch. The counter is an \<open>int\<close>:
  incrementing it at \<open>2^31 - 1\<close> overflows.
\<close>

function copy_memory_loop :: "bytes \<Rightarrow> nat \<Rightarrow> nat \<Rightarrow> nat \<Rightarrow> string \<Rightarrow> error + string" where
  "copy_memory_loop memory start len idx acc =
     (if idx < len then
        (if start + idx < length memory then
           (if int idx < 2147483647
            then copy_memory_loop memory start len (idx + 1) (acc @ hex_byte (memory ! (start + idx)))
            else Inl IntOverflow)
         else Inl MemoryOutOfRange)
      else Inr acc)"
  by pat_completeness auto
termination
  by (relation "measure (\<lambda>(memory, start, len, idx, acc). len - idx)") auto

declare copy_memory_loop.simps [simp del]

definition copy_memory :: "bytes \<Rightarrow> TraceMemory option \<Rightarrow> error + TraceMemory option" where
  "copy_memory memory trace_memory =
     (case trace_memory of
        None \<Rightarrow> Inr None
      | Some tm \<Rightarrow>
          if tm_len tm = 0 then Inr None
          else (case copy_memory_loop memory (unat (tm_offset tm)) (unat (tm_len tm)) 0 ''0x'' of
                  Inl e \<Rightarrow> Inl e
                | Inr d \<Rightarrow> Inr (Some (tm\<lparr>tm_data := d\<rparr>))))"

definition copy_store :: "u8 \<Rightarrow> (nat \<Rightarrow> u256) \<Rightarrow> TraceStorage option \<Rightarrow> TraceStorage option" where
  "copy_store c stack trace_storage =
     (if c = OP_SSTORE
      then Some \<lparr>ts_key = ''0x'' @ hex_of_nat (unat (stack 0)),
                 ts_value = ''0x'' @ hex_of_nat (unat (stack 1))\<rparr>
      else trace_storage)"

text \<open>\<open>stack[-i][0]\<close> is the least significant 64-bit limb of the stack word.\<close>

definition limb0 :: "u256 \<Rightarrow> u64" where
  "limb0 w = ucast w"

definition mk_TraceMemory :: "u64 \<Rightarrow> u64 \<Rightarrow> TraceMemory" where
  "mk_TraceMemory off n = \<lparr>tm_offset = off, tm_len = n, tm_data = []\<rparr>"

definition copy_memory_offset_len ::
  "u8 \<Rightarrow> (nat \<Rightarrow> u256) \<Rightarrow> TraceMemory option \<Rightarrow> TraceMemory option" where
  "copy_memory_offset_len c stack trace_memory =
     (if c = OP_MSTORE \<or> c = OP_MLOAD then Some (mk_TraceMemory (limb0 (stack 0)) 32)
      else if c = OP_MSTORE8 then Some (mk_TraceMemory (limb0 (stack 0)) 1)
      else if c = OP_RETURNDATACOPY \<or> c = OP_CALLDATACOPY \<or> c = OP_CODECOPY
        then Some (mk_TraceMemory (limb0 (stack 0)) (limb0 (stack 2)))
      else if c = OP_STATICCALL \<or> c = OP_DELEGATECALL
        then Some (mk_TraceMemory (limb0 (stack 4)) (limb0 (stack 5)))
      else if c = OP_CALL \<or> c = OP_CALLCODE
        then Some (mk_TraceMemory (limb0 (stack 5)) (limb0 (stack 6)))
      else if c = OP_CREATE \<or> c = OP_CREATE2 then Some (mk_TraceMemory 0 0)
      else trace_memory)"

subsection \<open>get\_op\_name\<close>

text \<open>The name table of evmc has one optional name per opcode byte.\<close>

definition get_op_name :: "(u8 \<Rightarrow> string option) \<Rightarrow> u8 \<Rightarrow> string" where
  "get_op_name names opcode =
     (case names opcode of
        Some name \<Rightarrow> name
      | None \<Rightarrow>
          (let hex = hex_byte opcode;
               hex = (if opcode < 16 then tl hex else hex)
           in ''opcode 0x'' @ hex @ '' not defined''))"

section \<open>VmTraceTracer\<close>

text \<open>
  The \<open>VmTrace\<close> nodes live in a store; a handle is an index into it. Handle \<open>0\<close> is
  the root \<open>vm_trace_\<close>, which the tracer holds by reference and does not own. Every
  other node is owned by the \<open>sub\<close> pointer of one op: \<open>std::make_shared\<close> appends a
  node, and overwriting or destroying that pointer destroys the node together with the
  nodes its ops own, which leaves \<open>None\<close> in the store. \<open>traces_stack_\<close> holds
  references, here handles, with the top of each \<open>std::stack\<close> at the head of the list.
\<close>

type_synonym store = "VmTrace option list"

definition node :: "store \<Rightarrow> nat \<Rightarrow> VmTrace option" where
  "node s h = (if h < length s then s ! h else None)"

definition subs_of :: "VmTrace \<Rightarrow> nat list" where
  "subs_of v = List.map_filter op_sub (vt_ops v)"

text \<open>A node is allocated after its owner, so one pass over the handles in increasing
  order destroys a node and everything below it.\<close>

fun destroy_pass :: "nat list \<Rightarrow> nat list \<Rightarrow> store \<Rightarrow> store" where
  "destroy_pass [] dead s = s"
| "destroy_pass (i # is) dead s =
     (if i \<in> set dead
      then (case node s i of
              Some v \<Rightarrow> destroy_pass is (subs_of v @ dead) (s[i := None])
            | None \<Rightarrow> destroy_pass is dead s)
      else destroy_pass is dead s)"

definition destroy :: "nat \<Rightarrow> store \<Rightarrow> store" where
  "destroy h s = destroy_pass [h..<length s] [h] s"

definition release :: "nat option \<Rightarrow> store \<Rightarrow> store" where
  "release p s = (case p of None \<Rightarrow> s | Some h \<Rightarrow> destroy h s)"

record VmTraceTracer =
  vmt_store :: store
  vmt_opcode_names :: "(u8 \<Rightarrow> string option) option"
  vmt_transaction_index :: int
  vmt_index_prefix :: "string list"
  vmt_start_gas :: "u64 list"
  vmt_traces_stack :: "nat list"

text \<open>The tracer as constructed: an empty root trace, no name table, empty stacks.\<close>

definition vmt_init :: "int \<Rightarrow> VmTraceTracer" where
  "vmt_init index =
     \<lparr>vmt_store = [Some empty_VmTrace], vmt_opcode_names = None,
      vmt_transaction_index = index, vmt_index_prefix = [], vmt_start_gas = [],
      vmt_traces_stack = []\<rparr>"

text \<open>What the tracer reads of \<open>evmone::ExecutionState\<close>.\<close>

record exec_state =
  es_code :: bytes
  es_gas_left :: u64
  es_memory :: bytes
  es_msg_depth :: int

definition is_call_op :: "u8 \<Rightarrow> bool" where
  "is_call_op c \<longleftrightarrow> c = OP_STATICCALL \<or> c = OP_DELEGATECALL \<or> c = OP_CALL"

text \<open>
  \<open>VmTraceTracer::on_execution_start\<close>. The first argument is
  \<open>evmc_get_instruction_names_table\<close>. The last statement of the source reads
  \<open>index_prefix_.top()\<close> for the log line, whatever the branch taken.
\<close>

definition vmt_on_execution_start ::
  "(nat \<Rightarrow> u8 \<Rightarrow> string option) \<Rightarrow> VmTraceTracer \<Rightarrow> nat \<Rightarrow> evmc_message \<Rightarrow> bytes
     \<Rightarrow> error + VmTraceTracer" where
  "vmt_on_execution_start names_table st0 revision msg code =
     (let st1 = (if vmt_opcode_names st0 = None
                 then st0\<lparr>vmt_opcode_names := Some (names_table revision)\<rparr> else st0);
          st = st1\<lparr>vmt_start_gas := msg_gas msg # vmt_start_gas st1\<rparr>;
          s = vmt_store st
      in case node s 0 of
           None \<Rightarrow> Inl DanglingReference
         | Some root \<Rightarrow>
             (case
                (if msg_depth msg = 0 then
                   Inr (st\<lparr>vmt_store := s[0 := Some (root\<lparr>vt_code := ''0x'' @ to_hex code\<rparr>)],
                           vmt_traces_stack := 0 # vmt_traces_stack st,
                           vmt_index_prefix :=
                             (if vmt_transaction_index st = - 1 then []
                              else dec_of_int (vmt_transaction_index st) @ ''-'')
                             # vmt_index_prefix st\<rparr>)
                 else if vt_ops root \<noteq> [] then
                   (case vmt_traces_stack st of
                      [] \<Rightarrow> Inl EmptyStack
                    | h # _ \<Rightarrow>
                        (case vmt_index_prefix st of
                           [] \<Rightarrow> Inl EmptyStack
                         | p # _ \<Rightarrow>
                             (case node s h of
                                None \<Rightarrow> Inl DanglingReference
                              | Some vm_trace \<Rightarrow>
                                  (let ops = vt_ops vm_trace; n = length ops
                                   in if n = 0 then Inl OpsOutOfRange
                                      else
                                        (let index_prefix = p @ dec_of_nat (n - 1) @ ''-'';
                                             op = ops ! (n - 1)
                                         in case
                                              (if is_call_op (op_code op) then
                                                 (if n < 2 then Inl OpsOutOfRange
                                                  else
                                                    (let op_1 = ops ! (n - 2);
                                                         cap = ex_used (op_trace_ex op_1) - msg_gas msg
                                                     in Inr (op\<lparr>op_depth := msg_depth msg,
                                                                op_gas_cost := op_gas_cost op - msg_gas msg,
                                                                op_call_gas_cap := Some cap\<rparr>)))
                                               else Inr op)
                                            of
                                              Inl e \<Rightarrow> Inl e
                                            | Inr op1 \<Rightarrow>
                                                (let k = length s;
                                                     op2 = op1\<lparr>op_sub := Some k\<rparr>;
                                                     s1 = s[h := Some (vm_trace\<lparr>vt_ops := ops[n - 1 := op2]\<rparr>)];
                                                     s2 = release (op_sub op1) s1;
                                                     s3 = s2 @ [Some \<lparr>vt_code = ''0x'' @ to_hex code, vt_ops = []\<rparr>]
                                                 in Inr (st\<lparr>vmt_store := s3,
                                                            vmt_traces_stack := k # vmt_traces_stack st,
                                                            vmt_index_prefix := index_prefix # vmt_index_prefix st\<rparr>)))))))
                 else Inr st)
              of
                Inl e \<Rightarrow> Inl e
              | Inr st2 \<Rightarrow> (if vmt_index_prefix st2 = [] then Inl EmptyStack else Inr st2)))"

text \<open>
  \<open>VmTraceTracer::on_instruction_start\<close>: the previous op of the current trace is
  completed, then the new op is appended.
\<close>

definition finalize_previous_op :: "exec_state \<Rightarrow> (nat \<Rightarrow> u256) \<Rightarrow> TraceOp \<Rightarrow> error + TraceOp" where
  "finalize_previous_op es stack op =
     (let gas_cost =
            (case op_precompiled_call_gas op of
               Some g \<Rightarrow> op_gas_cost op - g
             | None \<Rightarrow> (if op_depth op = es_msg_depth es then op_gas_cost op - es_gas_left es
                        else op_gas_cost op));
          ex = op_trace_ex op
      in case copy_memory (es_memory es) (ex_memory ex) of
           Inl e \<Rightarrow> Inl e
         | Inr m \<Rightarrow>
             Inr (op\<lparr>op_gas_cost := gas_cost,
                     op_trace_ex := ex\<lparr>ex_used := es_gas_left es, ex_memory := m,
                                        ex_stack := copy_stack (op_code op) stack (ex_stack ex)\<rparr>\<rparr>))"

definition new_trace_op :: "string \<Rightarrow> exec_state \<Rightarrow> u8 \<Rightarrow> string \<Rightarrow> u32 \<Rightarrow> (nat \<Rightarrow> u256) \<Rightarrow> TraceOp" where
  "new_trace_op index_prefix es c name pc stack =
     \<lparr>op_gas_cost = es_gas_left es,
      op_trace_ex = empty_TraceEx\<lparr>ex_memory := copy_memory_offset_len c stack None,
                                  ex_storage := copy_store c stack None\<rparr>,
      op_idx = index_prefix,
      op_depth = es_msg_depth es,
      op_code = c,
      op_name = (if name = ''KECCAK256'' then ''SHA3'' else name),
      op_pc = pc,
      op_sub = None,
      op_call_gas_cap = None,
      op_precompiled_call_gas = None\<rparr>"

definition vmt_on_instruction_start ::
  "VmTraceTracer \<Rightarrow> u32 \<Rightarrow> (nat \<Rightarrow> u256) \<Rightarrow> int \<Rightarrow> exec_state \<Rightarrow> error + VmTraceTracer" where
  "vmt_on_instruction_start st pc stack stack_height es =
     (if length (es_code es) \<le> unat pc then Inl CodeOutOfRange
      else
        (let c = es_code es ! unat pc
         in case vmt_opcode_names st of
              None \<Rightarrow> Inl NullPointer
            | Some names \<Rightarrow>
                (let name = get_op_name names c; s = vmt_store st
                 in case vmt_traces_stack st of
                      [] \<Rightarrow> Inl EmptyStack
                    | h # _ \<Rightarrow>
                        (case node s h of
                           None \<Rightarrow> Inl DanglingReference
                         | Some vm_trace \<Rightarrow>
                             (case
                                (if vt_ops vm_trace \<noteq> [] then
                                   (case finalize_previous_op es stack (last (vt_ops vm_trace)) of
                                      Inl e \<Rightarrow> Inl e
                                    | Inr op \<Rightarrow> Inr (butlast (vt_ops vm_trace) @ [op]))
                                 else Inr (vt_ops vm_trace))
                              of
                                Inl e \<Rightarrow> Inl e
                              | Inr ops \<Rightarrow>
                                  (case vmt_index_prefix st of
                                     [] \<Rightarrow> Inl EmptyStack
                                   | p # _ \<Rightarrow>
                                       (let index_prefix = p @ dec_of_nat (length ops);
                                            trace_op = new_trace_op index_prefix es c name pc stack
                                        in Inr (st\<lparr>vmt_store :=
                                                     s[h := Some (vm_trace\<lparr>vt_ops := ops @ [trace_op]\<rparr>)]\<rparr>))))))))"

text \<open>\<open>VmTraceTracer::on_precompiled_run\<close> works on the root trace \<open>vm_trace_\<close>.\<close>

definition vmt_on_precompiled_run :: "VmTraceTracer \<Rightarrow> evmc_result \<Rightarrow> u64 \<Rightarrow> error + VmTraceTracer" where
  "vmt_on_precompiled_run st result gas =
     (let s = vmt_store st
      in case node s 0 of
           None \<Rightarrow> Inl DanglingReference
         | Some root \<Rightarrow>
             (if vt_ops root \<noteq> [] then
                (let ops = vt_ops root; op = last ops; k = length s;
                     op1 = op\<lparr>op_precompiled_call_gas := Some gas, op_sub := Some k\<rparr>;
                     s1 = s[0 := Some (root\<lparr>vt_ops := butlast ops @ [op1]\<rparr>)];
                     s2 = release (op_sub op) s1;
                     s3 = s2 @ [Some \<lparr>vt_code = ''0x'', vt_ops = []\<rparr>]
                 in Inr (st\<lparr>vmt_store := s3\<rparr>))
              else Inr st))"

text \<open>
  \<open>VmTraceTracer::on_execution_end\<close>. The three stacks are popped first; the tail op
  is then closed according to the status code.
\<close>

definition finalize_tail_op :: "evmc_result \<Rightarrow> u64 \<Rightarrow> TraceOp \<Rightarrow> TraceOp" where
  "finalize_tail_op result start_gas op =
     (case res_status_code result of
        EVMC_OUT_OF_GAS \<Rightarrow>
          (let op1 = op\<lparr>op_trace_ex := (op_trace_ex op)\<lparr>ex_used := res_gas_left result\<rparr>\<rparr>
           in op1\<lparr>op_gas_cost := op_gas_cost op1 - res_gas_left result\<rparr>)
      | EVMC_UNDEFINED_INSTRUCTION \<Rightarrow>
          (let op1 = op\<lparr>op_trace_ex := (op_trace_ex op)\<lparr>ex_used := op_gas_cost op\<rparr>\<rparr>;
               op2 = op1\<lparr>op_gas_cost := start_gas - op_gas_cost op1\<rparr>
           in op2\<lparr>op_trace_ex := (op_trace_ex op2)\<lparr>ex_used := ex_used (op_trace_ex op2) - op_gas_cost op2\<rparr>\<rparr>)
      | _ \<Rightarrow>
          (let op1 = op\<lparr>op_gas_cost := op_gas_cost op - res_gas_left result\<rparr>
           in op1\<lparr>op_trace_ex := (op_trace_ex op1)\<lparr>ex_used := res_gas_left result\<rparr>\<rparr>))"

definition vmt_on_execution_end :: "VmTraceTracer \<Rightarrow> evmc_result \<Rightarrow> error + VmTraceTracer" where
  "vmt_on_execution_end st result =
     (case vmt_traces_stack st of
        [] \<Rightarrow> Inl EmptyStack
      | h # hs \<Rightarrow>
          (case vmt_start_gas st of
             [] \<Rightarrow> Inl EmptyStack
           | start_gas # gs \<Rightarrow>
               (case vmt_index_prefix st of
                  [] \<Rightarrow> Inl EmptyStack
                | _ # ps \<Rightarrow>
                    (let st1 = st\<lparr>vmt_traces_stack := hs, vmt_start_gas := gs, vmt_index_prefix := ps\<rparr>;
                         s = vmt_store st
                     in case node s h of
                          None \<Rightarrow> Inl DanglingReference
                        | Some vm_trace \<Rightarrow>
                            (let ops = vt_ops vm_trace
                             in if length ops = 0 then Inr st1
                                else
                                  (let op = ops ! (length ops - 1)
                                   in if op_code op = OP_STOP \<and> length ops = 1 then
                                        Inr (st1\<lparr>vmt_store :=
                                                   release (op_sub op) (s[h := Some (vm_trace\<lparr>vt_ops := []\<rparr>)])\<rparr>)
                                      else
                                        Inr (st1\<lparr>vmt_store :=
                                                   s[h := Some (vm_trace\<lparr>vt_ops :=
                                                          ops[length ops - 1 := finalize_tail_op result start_gas op]\<rparr>)]\<rparr>)))))))"

subsection \<open>Runs of the VM tracer\<close>

text \<open>The callbacks as events, and a run that stops at the first error.\<close>

datatype vm_event =
  ExecStart nat evmc_message bytes
| InstrStart u32 "nat \<Rightarrow> u256" int exec_state
| PrecompiledRun evmc_result u64
| ExecEnd evmc_result

fun vmt_step ::
  "(nat \<Rightarrow> u8 \<Rightarrow> string option) \<Rightarrow> VmTraceTracer \<Rightarrow> vm_event \<Rightarrow> error + VmTraceTracer" where
  "vmt_step names_table st (ExecStart revision msg code) =
     vmt_on_execution_start names_table st revision msg code"
| "vmt_step names_table st (InstrStart pc stack stack_height es) =
     vmt_on_instruction_start st pc stack stack_height es"
| "vmt_step names_table st (PrecompiledRun result gas) = vmt_on_precompiled_run st result gas"
| "vmt_step names_table st (ExecEnd result) = vmt_on_execution_end st result"

fun vmt_run ::
  "(nat \<Rightarrow> u8 \<Rightarrow> string option) \<Rightarrow> VmTraceTracer \<Rightarrow> vm_event list \<Rightarrow> error + VmTraceTracer" where
  "vmt_run names_table st [] = Inr st"
| "vmt_run names_table st (ev # evs) =
     (case vmt_step names_table st ev of
        Inl e \<Rightarrow> Inl e
      | Inr st1 \<Rightarrow> vmt_run names_table st1 evs)"

subsection \<open>The callbacks an interpreter makes\<close>

text \<open>
  The tracer is driven by the EVM interpreter, which is not part of evm\_trace.cpp.
  What is used of it here: a transaction has one outermost frame, at depth 0; a frame
  opens at the depth that is the number of open frames; the first instruction of a
  frame is reported with an empty stack (\<open>stack_height = 0\<close>); and a nested frame is
  opened by a call or create instruction of the enclosing frame, the last one reported
  there, with at least its operands on the stack. Nothing else is asked of the stack
  heights. A frame is recorded by the number of instructions reported in it, and the
  stack height and the opcode of the last one.
\<close>

datatype frame = Frame (f_count: nat) (f_height: int) (f_opcode: u8)

definition call_operands :: "u8 \<Rightarrow> nat option" where
  "call_operands c =
     (if c = OP_CREATE then Some 3
      else if c = OP_CALL then Some 7
      else if c = OP_CALLCODE then Some 7
      else if c = OP_DELEGATECALL then Some 6
      else if c = OP_CREATE2 then Some 4
      else if c = OP_STATICCALL then Some 6
      else None)"

fun evm_step :: "bool \<times> frame list \<Rightarrow> vm_event \<Rightarrow> (bool \<times> frame list) option" where
  "evm_step (started, frames) (ExecStart revision msg code) =
     (if msg_depth msg \<noteq> int (length frames) then None
      else (case frames of
              [] \<Rightarrow> (if started then None else Some (True, [Frame 0 0 0]))
            | f # _ \<Rightarrow>
                (case call_operands (f_opcode f) of
                   None \<Rightarrow> None
                 | Some k \<Rightarrow>
                     (if 0 < f_count f \<and> int k \<le> f_height f
                      then Some (started, Frame 0 0 0 # frames) else None))))"
| "evm_step (started, frames) (InstrStart pc stack stack_height es) =
     (case frames of
        [] \<Rightarrow> None
      | f # fs \<Rightarrow>
          (if unat pc < length (es_code es) \<and> (f_count f = 0 \<longrightarrow> stack_height = 0)
           then Some (started, Frame (f_count f + 1) stack_height (es_code es ! unat pc) # fs)
           else None))"
| "evm_step (started, frames) (PrecompiledRun result gas) = Some (started, frames)"
| "evm_step (started, frames) (ExecEnd result) =
     (case frames of [] \<Rightarrow> None | f # fs \<Rightarrow> Some (started, fs))"

fun evm_steps :: "bool \<times> frame list \<Rightarrow> vm_event list \<Rightarrow> (bool \<times> frame list) option" where
  "evm_steps m [] = Some m"
| "evm_steps m (ev # evs) = (case evm_step m ev of None \<Rightarrow> None | Some m1 \<Rightarrow> evm_steps m1 evs)"

definition evm_shaped :: "vm_event list \<Rightarrow> bool" where
  "evm_shaped evs \<longleftrightarrow> evm_steps (False, []) evs \<noteq> None"

section \<open>TraceTracer\<close>

text \<open>
  \<open>Trace::action\<close> is a \<open>std::variant\<close> of \<open>TraceAction\<close> and \<open>RewardAction\<close>; a fresh
  \<open>Trace\<close> holds a default \<open>TraceAction\<close>. \<open>sub_traces\<close> and the elements of
  \<open>trace_address\<close> are counts of child frames and are modelled as \<open>nat\<close>.
\<close>

record TraceAction =
  ta_call_type :: "string option"
  ta_from :: address
  ta_to :: "address option"
  ta_gas :: u64
  ta_input :: "bytes option"
  ta_init :: "bytes option"
  ta_value :: u256

record RewardAction =
  ra_author :: address
  ra_reward_type :: string
  ra_value :: u256

datatype action = Call_Action TraceAction | Reward_Action RewardAction

record TraceResult =
  tr_address :: "address option"
  tr_code :: "bytes option"
  tr_output :: "bytes option"
  tr_gas_used :: u64

record Trace =
  trace_action :: action
  trace_result :: "TraceResult option"
  trace_sub_traces :: nat
  trace_trace_address :: "nat list"
  trace_error :: "string option"
  trace_type :: string
  trace_block_hash :: "u256 option"
  trace_block_number :: "u64 option"
  trace_transaction_hash :: "u256 option"
  trace_transaction_position :: "nat option"

definition empty_TraceAction :: TraceAction where
  "empty_TraceAction =
     \<lparr>ta_call_type = None, ta_from = 0, ta_to = None, ta_gas = 0, ta_input = None,
      ta_init = None, ta_value = 0\<rparr>"

definition empty_TraceResult :: TraceResult where
  "empty_TraceResult = \<lparr>tr_address = None, tr_code = None, tr_output = None, tr_gas_used = 0\<rparr>"

definition empty_Trace :: Trace where
  "empty_Trace =
     \<lparr>trace_action = Call_Action empty_TraceAction, trace_result = None, trace_sub_traces = 0,
      trace_trace_address = [], trace_error = None, trace_type = [],
      trace_block_hash = None, trace_block_number = None, trace_transaction_hash = None,
      trace_transaction_position = None\<rparr>"

text \<open>
  The tracer state: \<open>traces_\<close> (the caller's vector, by reference), the set of
  created addresses, the stack of open indices, the stack of start gas, the initial
  gas and the current depth. The opcode name table only feeds the log lines and is
  left out.
\<close>

record TraceTracer =
  tt_traces :: "Trace list"
  tt_created_address :: "address set"
  tt_index_stack :: "nat list"
  tt_start_gas :: "u64 list"
  tt_initial_gas :: u64
  tt_current_depth :: int

definition call_type_of :: "evmc_message \<Rightarrow> TraceAction \<Rightarrow> TraceAction" where
  "call_type_of msg act =
     (let in_static_mode = (msg_flags msg AND EVMC_STATIC \<noteq> 0)
      in case msg_kind msg of
           EVMC_CALL \<Rightarrow>
             act\<lparr>ta_call_type := Some (if in_static_mode then ''staticcall'' else ''call'')\<rparr>
         | EVMC_DELEGATECALL \<Rightarrow>
             act\<lparr>ta_call_type := Some ''delegatecall'',
                           ta_to := Some (msg_code_address msg),
                           ta_from := msg_recipient msg\<rparr>
         | EVMC_CALLCODE \<Rightarrow> act\<lparr>ta_call_type := Some ''callcode''\<rparr>
         | EVMC_CREATE \<Rightarrow> act
         | EVMC_CREATE2 \<Rightarrow> act)"

text \<open>
  \<open>TraceTracer::on_execution_start\<close>. The first argument is \<open>initial_ibs_.exists\<close>.
  \<open>is_create\<close> is the local \<open>create\<close> of the source.
\<close>

definition is_create :: "(address \<Rightarrow> bool) \<Rightarrow> TraceTracer \<Rightarrow> evmc_message \<Rightarrow> bool" where
  "is_create initial_exists st msg \<longleftrightarrow>
     \<not> initial_exists (msg_recipient msg) \<and> msg_recipient msg \<notin> tt_created_address st
     \<and> msg_recipient msg \<noteq> msg_code_address msg"

definition new_trace :: "bool \<Rightarrow> evmc_message \<Rightarrow> bytes \<Rightarrow> Trace" where
  "new_trace create msg code =
     (let act = empty_TraceAction\<lparr>ta_from := msg_sender msg, ta_gas := msg_gas msg,
                                            ta_value := msg_value msg\<rparr>
      in if create then
           empty_Trace\<lparr>trace_type := ''create'',
                        trace_action := Call_Action (act\<lparr>ta_init := Some code\<rparr>),
                        trace_result := Some (empty_TraceResult\<lparr>tr_code := Some [],
                                                tr_address := Some (msg_recipient msg)\<rparr>)\<rparr>
         else
           empty_Trace\<lparr>trace_type := ''call'',
                        trace_action :=
                          Call_Action (call_type_of msg
                            (act\<lparr>ta_input := Some (msg_input msg),
                                           ta_to := Some (msg_recipient msg)\<rparr>)),
                        trace_result := Some (empty_TraceResult\<lparr>tr_output := Some []\<rparr>)\<rparr>)"

definition tt_on_execution_start ::
  "(address \<Rightarrow> bool) \<Rightarrow> TraceTracer \<Rightarrow> evmc_message \<Rightarrow> bytes \<Rightarrow> error + TraceTracer" where
  "tt_on_execution_start initial_exists st msg code =
     (let create = is_create initial_exists st msg;
          index = length (tt_traces st);
          traces = tt_traces st @ [new_trace create msg code];
          st1 = st\<lparr>tt_current_depth := msg_depth msg,
                   tt_start_gas := msg_gas msg # tt_start_gas st,
                   tt_created_address :=
                     (if create then insert (msg_recipient msg) (tt_created_address st)
                      else tt_created_address st)\<rparr>
      in case
           (if msg_depth msg > 0 then
              (case tt_index_stack st of
                 [] \<Rightarrow> Inr (st1\<lparr>tt_traces := traces\<rparr>)
               | index_stack # _ \<Rightarrow>
                   (if length traces \<le> index_stack then Inl TracesOutOfRange
                    else
                      (let calling_trace = traces ! index_stack;
                           traces1 = traces[index := (traces ! index)
                                       \<lparr>trace_trace_address := trace_trace_address calling_trace
                                                                 @ [trace_sub_traces calling_trace]\<rparr>];
                           traces2 = traces1[index_stack := (traces1 ! index_stack)
                                       \<lparr>trace_sub_traces := trace_sub_traces (traces1 ! index_stack) + 1\<rparr>]
                       in Inr (st1\<lparr>tt_traces := traces2\<rparr>))))
            else Inr (st1\<lparr>tt_traces := traces, tt_initial_gas := msg_gas msg\<rparr>))
         of
           Inl e \<Rightarrow> Inl e
         | Inr st2 \<Rightarrow> Inr (st2\<lparr>tt_index_stack := index # tt_index_stack st\<rparr>))"

text \<open>\<open>TraceTracer::on_instruction_start\<close> only writes a log line.\<close>

definition tt_on_instruction_start :: "TraceTracer \<Rightarrow> TraceTracer" where
  "tt_on_instruction_start st = st"

text \<open>
  The status switch shared by \<open>on_execution_end\<close> and \<open>on_reward_granted\<close>, for the
  statuses other than success: the error text, and the result is reset.
\<close>

definition error_of_status :: "evmc_status_code \<Rightarrow> string" where
  "error_of_status status =
     (case status of
        EVMC_REVERT \<Rightarrow> ''Reverted''
      | EVMC_OUT_OF_GAS \<Rightarrow> ''Out of gas''
      | EVMC_STACK_OVERFLOW \<Rightarrow> ''Out of gas''
      | EVMC_UNDEFINED_INSTRUCTION \<Rightarrow> ''Bad instruction''
      | EVMC_INVALID_INSTRUCTION \<Rightarrow> ''Bad instruction''
      | EVMC_STACK_UNDERFLOW \<Rightarrow> ''Stack underflow''
      | EVMC_BAD_JUMP_DESTINATION \<Rightarrow> ''Bad jump destination''
      | _ \<Rightarrow> [])"

text \<open>The copy of the output bytes into the pre-allocated \<open>code\<close> or \<open>output\<close>.\<close>

definition set_code_or_output :: "bytes \<Rightarrow> TraceResult \<Rightarrow> TraceResult" where
  "set_code_or_output data r =
     (if tr_code r \<noteq> None then r\<lparr>tr_code := Some data\<rparr>
      else if tr_output r \<noteq> None then r\<lparr>tr_output := Some data\<rparr>
      else r)"

definition tt_on_execution_end :: "TraceTracer \<Rightarrow> evmc_result \<Rightarrow> error + TraceTracer" where
  "tt_on_execution_end st result =
     (case tt_index_stack st of
        [] \<Rightarrow> Inl EmptyStack
      | index # is \<Rightarrow>
          (case tt_start_gas st of
             [] \<Rightarrow> Inl EmptyStack
           | start_gas # gs \<Rightarrow>
               (if length (tt_traces st) \<le> index then Inl TracesOutOfRange
                else
                  (let trace = tt_traces st ! index
                   in case
                        (if tt_current_depth st > 0 then
                           (case trace_result trace of
                              None \<Rightarrow> Inl EmptyOptional
                            | Some r \<Rightarrow>
                                Inr (trace\<lparr>trace_result := Some (set_code_or_output (res_output result) r)\<rparr>))
                         else Inr trace)
                      of
                        Inl e \<Rightarrow> Inl e
                      | Inr trace1 \<Rightarrow>
                          (case
                             (case res_status_code result of
                                EVMC_SUCCESS \<Rightarrow>
                                  (case trace_result trace1 of
                                     None \<Rightarrow> Inl EmptyOptional
                                   | Some r \<Rightarrow>
                                       Inr (trace1\<lparr>trace_result :=
                                              Some (r\<lparr>tr_gas_used := start_gas - res_gas_left result\<rparr>)\<rparr>))
                              | status \<Rightarrow>
                                  Inr (trace1\<lparr>trace_error := Some (error_of_status status),
                                              trace_result := None\<rparr>))
                           of
                             Inl e \<Rightarrow> Inl e
                           | Inr trace2 \<Rightarrow>
                               Inr (st\<lparr>tt_index_stack := is, tt_start_gas := gs,
                                       tt_current_depth := tt_current_depth st - 1,
                                       tt_traces := (tt_traces st)[index := trace2]\<rparr>))))))"

text \<open>\<open>silkworm::CallResult\<close>: status, gas left and data.\<close>

record CallResult =
  cr_status :: evmc_status_code
  cr_gas_left :: u64
  cr_data :: bytes

definition tt_on_reward_granted :: "TraceTracer \<Rightarrow> CallResult \<Rightarrow> error + TraceTracer" where
  "tt_on_reward_granted st result =
     (if length (tt_traces st) = 0 then Inr st
      else
        (let trace = tt_traces st ! 0
         in case
              (case cr_status result of
                 EVMC_SUCCESS \<Rightarrow>
                   (case trace_result trace of
                      None \<Rightarrow> Inl EmptyOptional
                    | Some r \<Rightarrow>
                        (let r1 = r\<lparr>tr_gas_used := tt_initial_gas st - cr_gas_left result\<rparr>;
                             r2 = (if length (cr_data result) > 0
                                   then set_code_or_output (cr_data result) r1 else r1)
                         in Inr (trace\<lparr>trace_result := Some r2\<rparr>)))
               | status \<Rightarrow>
                   Inr (trace\<lparr>trace_error := Some (error_of_status status), trace_result := None\<rparr>))
            of
              Inl e \<Rightarrow> Inl e
            | Inr trace1 \<Rightarrow> Inr (st\<lparr>tt_traces := (tt_traces st)[0 := trace1]\<rparr>)))"

subsection \<open>States the call tracer reaches\<close>

text \<open>
  The interpreter opens the outermost frame at depth 0 on a tracer whose list is still
  empty, opens every nested frame at the depth that is the number of open frames,
  closes only an open frame, and grants the reward when no frame is open.
\<close>

inductive tt_reachable :: "(address \<Rightarrow> bool) \<Rightarrow> TraceTracer \<Rightarrow> bool"
  for initial_exists :: "address \<Rightarrow> bool" where
  tt_initial:
    "tt_traces st = [] \<Longrightarrow> tt_index_stack st = [] \<Longrightarrow> tt_start_gas st = []
     \<Longrightarrow> tt_created_address st = {} \<Longrightarrow> tt_reachable initial_exists st"
| tt_start:
    "tt_reachable initial_exists st \<Longrightarrow> msg_depth msg = int (length (tt_index_stack st))
     \<Longrightarrow> (tt_index_stack st = [] \<longrightarrow> tt_traces st = [])
     \<Longrightarrow> tt_on_execution_start initial_exists st msg code = Inr st1
     \<Longrightarrow> tt_reachable initial_exists st1"
| tt_instruction:
    "tt_reachable initial_exists st \<Longrightarrow> tt_reachable initial_exists (tt_on_instruction_start st)"
| tt_end:
    "tt_reachable initial_exists st \<Longrightarrow> tt_index_stack st \<noteq> []
     \<Longrightarrow> tt_on_execution_end st result = Inr st1 \<Longrightarrow> tt_reachable initial_exists st1"
| tt_reward:
    "tt_reachable initial_exists st \<Longrightarrow> tt_index_stack st = []
     \<Longrightarrow> tt_on_reward_granted st call_result = Inr st1 \<Longrightarrow> tt_reachable initial_exists st1"

text \<open>The address \<open>b\<close> is the address \<open>a\<close> extended by one element.\<close>

definition extends_by_one :: "nat list \<Rightarrow> nat list \<Rightarrow> bool" where
  "extends_by_one a b \<longleftrightarrow> b \<noteq> [] \<and> butlast b = a"

text \<open>The number of traces emitted after position \<open>i\<close> whose address extends that of
  the trace at \<open>i\<close> by one element.\<close>

definition later_children :: "Trace list \<Rightarrow> nat \<Rightarrow> nat" where
  "later_children ts i =
     length (filter (\<lambda>j. extends_by_one (trace_trace_address (ts ! i)) (trace_trace_address (ts ! j)))
               [Suc i..<length ts])"

section \<open>StateDiffTracer\<close>

text \<open>
  A \<open>DiffValue\<close> is a pair of optional strings; \<open>to_json\<close> prints it as \<open>=\<close> when both
  are absent. A \<open>StateDiffEntry\<close> has three of them and a map from storage keys to
  \<open>DiffValue\<close>; \<open>StateDiff\<close> is a \<open>std::map\<close> from the address key to the entry.
\<close>

record DiffValue =
  dv_from :: "string option"
  dv_to :: "string option"

record StateDiffEntry =
  sd_balance :: DiffValue
  sd_code :: DiffValue
  sd_nonce :: DiffValue
  sd_storage :: "string \<rightharpoonup> DiffValue"

type_synonym StateDiff = "string \<rightharpoonup> StateDiffEntry"

definition unchanged :: DiffValue where
  "unchanged = \<lparr>dv_from = None, dv_to = None\<rparr>"

definition empty_StateDiffEntry :: StateDiffEntry where
  "empty_StateDiffEntry =
     \<lparr>sd_balance = unchanged, sd_code = unchanged, sd_nonce = unchanged, sd_storage = Map.empty\<rparr>"

text \<open>The three constructions \<open>DiffValue{from, to}\<close>, \<open>DiffValue{from}\<close> and
  \<open>DiffValue{{}, to}\<close> of the source.\<close>

definition changed :: "string \<Rightarrow> string \<Rightarrow> DiffValue" where
  "changed a b = \<lparr>dv_from = Some a, dv_to = Some b\<rparr>"

definition removed :: "string \<Rightarrow> DiffValue" where
  "removed a = \<lparr>dv_from = Some a, dv_to = None\<rparr>"

definition added :: "string \<Rightarrow> DiffValue" where
  "added b = \<lparr>dv_from = None, dv_to = Some b\<rparr>"

text \<open>What the tracers read of \<open>silkworm::IntraBlockState\<close>. Storage keys and values
  are 32-byte strings.\<close>

record IntraBlockState =
  ibs_exists :: "address \<Rightarrow> bool"
  ibs_get_balance :: "address \<Rightarrow> u256"
  ibs_get_nonce :: "address \<Rightarrow> u64"
  ibs_get_code :: "address \<Rightarrow> bytes"
  ibs_get_original_storage :: "address \<Rightarrow> bytes \<Rightarrow> bytes"
  ibs_get_current_storage :: "address \<Rightarrow> bytes \<Rightarrow> bytes"
  ibs_touched :: "address list"

text \<open>
  \<open>StateAddresses\<close>: the recorded balances, nonces and codes over the initial state.
  \<open>StateAddresses::exists\<close> is declared in the header; its result is the field
  \<open>sa_exists\<close>.
\<close>

record StateAddresses =
  sa_balances :: "address \<rightharpoonup> u256"
  sa_nonces :: "address \<rightharpoonup> u64"
  sa_codes :: "address \<rightharpoonup> bytes"
  sa_initial_ibs :: IntraBlockState
  sa_exists :: "address \<Rightarrow> bool"

definition get_balance :: "StateAddresses \<Rightarrow> address \<Rightarrow> u256" where
  "get_balance sa a =
     (case sa_balances sa a of Some v \<Rightarrow> v | None \<Rightarrow> ibs_get_balance (sa_initial_ibs sa) a)"

definition get_nonce :: "StateAddresses \<Rightarrow> address \<Rightarrow> u64" where
  "get_nonce sa a =
     (case sa_nonces sa a of Some v \<Rightarrow> v | None \<Rightarrow> ibs_get_nonce (sa_initial_ibs sa) a)"

definition get_code :: "StateAddresses \<Rightarrow> address \<Rightarrow> bytes" where
  "get_code sa a =
     (case sa_codes sa a of Some v \<Rightarrow> v | None \<Rightarrow> ibs_get_code (sa_initial_ibs sa) a)"

text \<open>Modelled from the spec: \<open>to_quantity\<close> of silkrpc/common/util.hpp is not among the
  sources; the spec gives a quantity as \<open>0x\<close> and the hexadecimal of minimal width.\<close>

definition to_quantity :: "nat \<Rightarrow> string" where
  "to_quantity n = ''0x'' @ hex_of_nat n"

text \<open>
  The tracer state: the caller's \<open>state_diff_\<close>, the storage keys recorded per
  address (a \<open>std::set\<close> of strings, here the list of its elements in order) and the
  shadow \<open>state_addresses_\<close>.
\<close>

record StateDiffTracer =
  sdt_state_diff :: StateDiff
  sdt_diff_storage :: "address \<rightharpoonup> string list"
  sdt_state_addresses :: StateAddresses

text \<open>The three loops over the recorded keys. The first argument is
  \<open>silkworm::bytes32_from_hex\<close>.\<close>

fun storage_changed_loop ::
  "(string \<Rightarrow> bytes) \<Rightarrow> IntraBlockState \<Rightarrow> address \<Rightarrow> string list
     \<Rightarrow> bool \<times> StateDiffEntry \<Rightarrow> bool \<times> StateDiffEntry" where
  "storage_changed_loop b32 ibs a [] (all_equals, entry) = (all_equals, entry)"
| "storage_changed_loop b32 ibs a (key # keys) (all_equals, entry) =
     (let key_b32 = b32 key;
          initial_storage = ibs_get_original_storage ibs a key_b32;
          final_storage = ibs_get_current_storage ibs a key_b32
      in if initial_storage \<noteq> final_storage then
           storage_changed_loop b32 ibs a keys
             (False, entry\<lparr>sd_storage := (sd_storage entry)(key \<mapsto>
                        changed (''0x'' @ to_hex initial_storage) (''0x'' @ to_hex final_storage))\<rparr>)
         else storage_changed_loop b32 ibs a keys (all_equals, entry))"

fun storage_removed_loop ::
  "(string \<Rightarrow> bytes) \<Rightarrow> IntraBlockState \<Rightarrow> address \<Rightarrow> string list \<Rightarrow> StateDiffEntry
     \<Rightarrow> StateDiffEntry" where
  "storage_removed_loop b32 ibs a [] entry = entry"
| "storage_removed_loop b32 ibs a (key # keys) entry =
     storage_removed_loop b32 ibs a keys
       (entry\<lparr>sd_storage := (sd_storage entry)(key \<mapsto>
                 removed (''0x'' @ to_hex (ibs_get_original_storage ibs a (b32 key))))\<rparr>)"

fun storage_added_loop ::
  "(string \<Rightarrow> bytes) \<Rightarrow> IntraBlockState \<Rightarrow> address \<Rightarrow> string list
     \<Rightarrow> bool \<times> StateDiffEntry \<Rightarrow> bool \<times> StateDiffEntry" where
  "storage_added_loop b32 ibs a [] (to_be_removed, entry) = (to_be_removed, entry)"
| "storage_added_loop b32 ibs a (key # keys) (to_be_removed, entry) =
     storage_added_loop b32 ibs a keys
       (False, entry\<lparr>sd_storage := (sd_storage entry)(key \<mapsto>
                        added (''0x'' @ to_hex (ibs_get_current_storage ibs a (b32 key))))\<rparr>)"

text \<open>
  The body of the loop of \<open>StateDiffTracer::on_reward_granted\<close> for one touched
  address. \<open>diff_storage_[address]\<close> and \<open>state_diff_[address_key]\<close> insert a default
  value when the key is absent, before any test.
\<close>

definition sdt_touched_address ::
  "(string \<Rightarrow> bytes) \<Rightarrow> IntraBlockState \<Rightarrow> StateDiffTracer \<Rightarrow> address \<Rightarrow> StateDiffTracer" where
  "sdt_touched_address b32 ibs st a =
     (let sa = sdt_state_addresses st;
          initial_exists = sa_exists sa a;
          exists = ibs_exists ibs a;
          diff_storage = (case sdt_diff_storage st a of Some keys \<Rightarrow> keys | None \<Rightarrow> []);
          st1 = st\<lparr>sdt_diff_storage := (sdt_diff_storage st)(a \<mapsto> diff_storage)\<rparr>;
          address_key = ''0x'' @ to_hex (address_bytes a);
          entry = (case sdt_state_diff st1 address_key of
                     Some e \<Rightarrow> e | None \<Rightarrow> empty_StateDiffEntry);
          st2 = st1\<lparr>sdt_state_diff := (sdt_state_diff st1)(address_key \<mapsto> entry)\<rparr>
      in if initial_exists then
           (let initial_balance = get_balance sa a;
                initial_code = get_code sa a;
                initial_nonce = get_nonce sa a
            in if exists then
                 (let final_balance = ibs_get_balance ibs a;
                      (all_equals1, entry1) =
                        (if initial_balance \<noteq> final_balance
                         then (False, entry\<lparr>sd_balance :=
                                 changed (''0x'' @ hex_of_nat (unat initial_balance))
                                         (''0x'' @ hex_of_nat (unat final_balance))\<rparr>)
                         else (True, entry));
                      final_code = ibs_get_code ibs a;
                      (all_equals2, entry2) =
                        (if initial_code \<noteq> final_code
                         then (False, entry1\<lparr>sd_code :=
                                 changed (''0x'' @ to_hex initial_code) (''0x'' @ to_hex final_code)\<rparr>)
                         else (all_equals1, entry1));
                      final_nonce = ibs_get_nonce ibs a;
                      (all_equals3, entry3) =
                        (if initial_nonce \<noteq> final_nonce
                         then (False, entry2\<lparr>sd_nonce :=
                                 changed (to_quantity (unat initial_nonce))
                                         (to_quantity (unat final_nonce))\<rparr>)
                         else (all_equals2, entry2));
                      (all_equals, entry4) =
                        storage_changed_loop b32 ibs a diff_storage (all_equals3, entry3)
                  in if all_equals
                     then st2\<lparr>sdt_state_diff := (sdt_state_diff st2)(address_key := None)\<rparr>
                     else st2\<lparr>sdt_state_diff := (sdt_state_diff st2)(address_key \<mapsto> entry4)\<rparr>)
               else
                 (let entry1 = entry\<lparr>sd_balance := removed (''0x'' @ hex_of_nat (unat initial_balance)),
                                      sd_code := removed (''0x'' @ to_hex initial_code),
                                      sd_nonce := removed (to_quantity (unat initial_nonce))\<rparr>;
                      entry2 = storage_removed_loop b32 ibs a diff_storage entry1
                  in st2\<lparr>sdt_state_diff := (sdt_state_diff st2)(address_key \<mapsto> entry2)\<rparr>))
         else if exists then
           (let balance = ibs_get_balance ibs a;
                code = ibs_get_code ibs a;
                nonce = ibs_get_nonce ibs a;
                entry1 = entry\<lparr>sd_balance := added (''0x'' @ hex_of_nat (unat balance)),
                                sd_code := added (''0x'' @ to_hex code),
                                sd_nonce := added (to_quantity (unat nonce))\<rparr>;
                to_be_removed0 = (balance = 0 \<and> code = [] \<and> nonce = 0);
                (to_be_removed, entry2) =
                  storage_added_loop b32 ibs a diff_storage (to_be_removed0, entry1)
            in if to_be_removed
               then st2\<lparr>sdt_state_diff := (sdt_state_diff st2)(address_key := None)\<rparr>
               else st2\<lparr>sdt_state_diff := (sdt_state_diff st2)(address_key \<mapsto> entry2)\<rparr>)
         else st2)"

text \<open>\<open>StateDiffTracer::on_reward_granted\<close>: the loop over the touched addresses.\<close>

definition sdt_on_reward_granted ::
  "(string \<Rightarrow> bytes) \<Rightarrow> StateDiffTracer \<Rightarrow> CallResult \<Rightarrow> IntraBlockState \<Rightarrow> StateDiffTracer" where
  "sdt_on_reward_granted b32 st result ibs = foldl (sdt_touched_address b32 ibs) st (ibs_touched ibs)"

section \<open>TraceCallExecutor\<close>

text \<open>
  The result types. A \<open>VmTrace\<close> result is the store of its nodes, the root at
  handle \<open>0\<close>.
\<close>

record TraceConfig =
  tc_vm_trace :: bool
  tc_trace :: bool
  tc_state_diff :: bool

record TraceCallTraces =
  tct_output :: string
  tct_state_diff :: "StateDiff option"
  tct_trace :: "Trace list"
  tct_vm_trace :: "store option"
  tct_transaction_hash :: "u256 option"

record TraceCallResult =
  tcr_traces :: TraceCallTraces
  tcr_pre_check_error :: "string option"

record TraceManyCallResult =
  tmr_traces :: "TraceCallTraces list"
  tmr_pre_check_error :: "string option"

definition empty_TraceCallTraces :: TraceCallTraces where
  "empty_TraceCallTraces =
     \<lparr>tct_output = [], tct_state_diff = None, tct_trace = [], tct_vm_trace = None,
      tct_transaction_hash = None\<rparr>"

definition empty_TraceCallResult :: TraceCallResult where
  "empty_TraceCallResult = \<lparr>tcr_traces = empty_TraceCallTraces, tcr_pre_check_error = None\<rparr>"

definition empty_TraceManyCallResult :: TraceManyCallResult where
  "empty_TraceManyCallResult = \<lparr>tmr_traces = [], tmr_pre_check_error = None\<rparr>"

text \<open>What the executor returns, the block, the chain configuration (the member names
  of its JSON object \<open>config\<close>) and the block reward.\<close>

record ExecutionResult =
  er_pre_check_error :: "string option"
  er_data :: bytes

record 'tx Block =
  block_number :: u64
  block_beneficiary :: address
  block_transactions :: "'tx list"

record 'tx BlockWithHash =
  bwh_block :: "'tx Block"
  bwh_hash :: u256

record ChainConfig =
  cc_chain_id :: nat
  cc_config :: "string list"

record BlockReward =
  br_miner_reward :: u256
  br_ommer_rewards :: "u256 list"

record 'call TraceCall =
  tcall_call :: 'call
  tcall_trace_config :: TraceConfig

text \<open>
  The collaborators outside evm\_trace.cpp, as functions: \<open>EVMExecutor::call\<close> on a
  world \<open>'w\<close> (the executor, the database and the shadow state), given the index and
  the configuration that select the tracers and the \<open>TraceCallTraces\<close> they write to,
  returns the new world, the execution result and the traces as the tracers left
  them; \<open>EVMExecutor::reset\<close>; the sender recovery and the hash of a transaction;
  \<open>Call::to_transaction\<close>; \<open>ethash::compute_reward\<close>.
\<close>

record ('w, 'tx, 'call) collaborators =
  ext_call :: "'w \<Rightarrow> 'tx Block \<Rightarrow> 'tx \<Rightarrow> int \<Rightarrow> TraceConfig \<Rightarrow> TraceCallTraces
                 \<Rightarrow> 'w \<times> ExecutionResult \<times> TraceCallTraces"
  ext_reset :: "'w \<Rightarrow> 'w"
  ext_from :: "'tx \<Rightarrow> address option"
  ext_recover_sender :: "'tx \<Rightarrow> 'tx"
  ext_hash_of_transaction :: "'tx \<Rightarrow> u256"
  ext_to_transaction :: "'call \<Rightarrow> 'tx"
  ext_compute_reward :: "ChainConfig \<Rightarrow> 'tx Block \<Rightarrow> BlockReward"

text \<open>The \<open>emplace\<close> of the optional results for the tracers the configuration enables.\<close>

definition prepare_traces :: "TraceConfig \<Rightarrow> TraceCallTraces \<Rightarrow> TraceCallTraces" where
  "prepare_traces config traces =
     (let traces1 = (if tc_vm_trace config
                     then traces\<lparr>tct_vm_trace := Some [Some empty_VmTrace]\<rparr> else traces)
      in if tc_state_diff config then traces1\<lparr>tct_state_diff := Some Map.empty\<rparr> else traces1)"

definition with_sender :: "('w, 'tx, 'call) collaborators \<Rightarrow> 'tx \<Rightarrow> 'tx" where
  "with_sender ext tx = (if ext_from ext tx = None then ext_recover_sender ext tx else tx)"

text \<open>\<open>trace_block_transactions\<close>: one result per transaction, in order.\<close>

fun trace_block_transactions_loop ::
  "('w, 'tx, 'call) collaborators \<Rightarrow> 'tx Block \<Rightarrow> TraceConfig \<Rightarrow> 'w \<Rightarrow> nat \<Rightarrow> 'tx list
     \<Rightarrow> 'w \<times> TraceCallResult list" where
  "trace_block_transactions_loop ext block config w index [] = (w, [])"
| "trace_block_transactions_loop ext block config w index (tx # txs) =
     (let transaction = with_sender ext tx;
          traces = prepare_traces config
                     (empty_TraceCallTraces\<lparr>tct_transaction_hash :=
                        Some (ext_hash_of_transaction ext transaction)\<rparr>);
          (w1, execution_result, traces1) = ext_call ext w block transaction (int index) config traces;
          result = (case er_pre_check_error execution_result of
                      Some e \<Rightarrow> \<lparr>tcr_traces = traces1, tcr_pre_check_error = Some e\<rparr>
                    | None \<Rightarrow>
                        \<lparr>tcr_traces = traces1\<lparr>tct_output := ''0x'' @ to_hex (er_data execution_result)\<rparr>,
                         tcr_pre_check_error = None\<rparr>);
          (w2, results) = trace_block_transactions_loop ext block config w1 (index + 1) txs
      in (w2, result # results))"

definition trace_block_transactions ::
  "('w, 'tx, 'call) collaborators \<Rightarrow> 'w \<Rightarrow> 'tx Block \<Rightarrow> TraceConfig \<Rightarrow> 'w \<times> TraceCallResult list" where
  "trace_block_transactions ext w block config =
     trace_block_transactions_loop ext block config w 0 (block_transactions block)"

text \<open>
  \<open>trace_block\<close>: the call traces of every transaction with the block and transaction
  fields filled, then the reward trace. \<open>chain_config\<close> is what \<open>read_chain_config\<close>
  returns.
\<close>

definition decorate ::
  "('w, 'tx, 'call) collaborators \<Rightarrow> 'tx BlockWithHash \<Rightarrow> nat \<Rightarrow> TraceCallResult \<Rightarrow> Trace list" where
  "decorate ext block_with_hash pos trace_call_result =
     (let transaction = with_sender ext (block_transactions (bwh_block block_with_hash) ! pos);
          tnx_hash = ext_hash_of_transaction ext transaction
      in map (\<lambda>call_trace.
                call_trace\<lparr>trace_block_number := Some (block_number (bwh_block block_with_hash)),
                            trace_block_hash := Some (bwh_hash block_with_hash),
                            trace_transaction_position := Some pos,
                            trace_transaction_hash := Some tnx_hash\<rparr>)
           (tct_trace (tcr_traces trace_call_result)))"

definition reward_trace ::
  "('w, 'tx, 'call) collaborators \<Rightarrow> ChainConfig \<Rightarrow> 'tx BlockWithHash \<Rightarrow> Trace" where
  "reward_trace ext chain_config block_with_hash =
     (let block_rewards =
            (if count_list (cc_config chain_config) ''ethash'' \<noteq> 0
             then ext_compute_reward ext chain_config (bwh_block block_with_hash)
             else \<lparr>br_miner_reward = 0, br_ommer_rewards = []\<rparr>);
          action = \<lparr>ra_author = block_beneficiary (bwh_block block_with_hash),
                    ra_reward_type = ''block'',
                    ra_value = br_miner_reward block_rewards\<rparr>
      in empty_Trace\<lparr>trace_block_number := Some (block_number (bwh_block block_with_hash)),
                      trace_block_hash := Some (bwh_hash block_with_hash),
                      trace_type := ''reward'',
                      trace_action := Reward_Action action\<rparr>)"

definition trace_block ::
  "('w, 'tx, 'call) collaborators \<Rightarrow> ChainConfig \<Rightarrow> 'w \<Rightarrow> 'tx BlockWithHash \<Rightarrow> Trace list" where
  "trace_block ext chain_config w block_with_hash =
     (let trace_call_results =
            snd (trace_block_transactions ext w (bwh_block block_with_hash)
                   \<lparr>tc_vm_trace = False, tc_trace = True, tc_state_diff = False\<rparr>);
          traces = concat (map (\<lambda>pos. decorate ext block_with_hash pos (trace_call_results ! pos))
                             [0..<length trace_call_results])
      in traces @ [reward_trace ext chain_config block_with_hash])"

text \<open>
  \<open>trace_calls\<close>: the loop stops at the first pre-check error, after clearing the
  results; otherwise it appends the traces and resets the executor.
\<close>

fun trace_calls_loop ::
  "('w, 'tx, 'call) collaborators \<Rightarrow> 'tx Block \<Rightarrow> 'w \<Rightarrow> nat \<Rightarrow> 'call TraceCall list
     \<Rightarrow> TraceManyCallResult \<Rightarrow> 'w \<times> TraceManyCallResult" where
  "trace_calls_loop ext block w index [] result = (w, result)"
| "trace_calls_loop ext block w index (c # cs) result =
     (let config = tcall_trace_config c;
          transaction = ext_to_transaction ext (tcall_call c);
          traces = prepare_traces config empty_TraceCallTraces;
          (w1, execution_result, traces1) = ext_call ext w block transaction (int index) config traces
      in case er_pre_check_error execution_result of
           Some e \<Rightarrow>
             (w1, result\<lparr>tmr_pre_check_error :=
                            Some (''first run for txIndex '' @ dec_of_nat index @ '' error: '' @ e),
                          tmr_traces := []\<rparr>)
         | None \<Rightarrow>
             trace_calls_loop ext block (ext_reset ext w1) (index + 1) cs
               (result\<lparr>tmr_traces := tmr_traces result
                          @ [traces1\<lparr>tct_output := ''0x'' @ to_hex (er_data execution_result)\<rparr>]\<rparr>))"

definition trace_calls ::
  "('w, 'tx, 'call) collaborators \<Rightarrow> 'w \<Rightarrow> 'tx Block \<Rightarrow> 'call TraceCall list
     \<Rightarrow> 'w \<times> TraceManyCallResult" where
  "trace_calls ext w block calls = trace_calls_loop ext block w 0 calls empty_TraceManyCallResult"

text \<open>
  The calls as the executor sees them one after the other, each on the world the
  previous one left and reset: the execution result and the traces of each.
\<close>

fun call_outcomes ::
  "('w, 'tx, 'call) collaborators \<Rightarrow> 'tx Block \<Rightarrow> 'w \<Rightarrow> nat \<Rightarrow> 'call TraceCall list
     \<Rightarrow> ('w \<times> ExecutionResult \<times> TraceCallTraces) list" where
  "call_outcomes ext block w index [] = []"
| "call_outcomes ext block w index (c # cs) =
     (let out = ext_call ext w block (ext_to_transaction ext (tcall_call c)) (int index)
                  (tcall_trace_config c) (prepare_traces (tcall_trace_config c) empty_TraceCallTraces)
      in out # call_outcomes ext block (ext_reset ext (fst out)) (index + 1) cs)"
section \<open>Invariants and example data\<close>

text \<open>The invariants used in the proofs below, and the concrete inputs on which the
  properties are evaluated.\<close>

definition invalid_op :: TraceOp where
  "invalid_op =
     \<lparr>op_gas_cost = 70, op_trace_ex = empty_TraceEx, op_idx = ''0'', op_depth = 0,
      op_code = 0xfe, op_name = ''INVALID'', op_pc = 0, op_sub = None,
      op_call_gas_cap = None, op_precompiled_call_gas = None\<rparr>"

definition invalid_frame :: VmTraceTracer where
  "invalid_frame =
     \<lparr>vmt_store = [Some \<lparr>vt_code = ''0xfe'', vt_ops = [invalid_op]\<rparr>],
      vmt_opcode_names = None, vmt_transaction_index = - 1, vmt_index_prefix = [[]],
      vmt_start_gas = [100], vmt_traces_stack = [0]\<rparr>"

definition stop_names :: "nat \<Rightarrow> u8 \<Rightarrow> string option" where
  "stop_names revision c = (if c = OP_STOP then Some ''STOP'' else None)"

definition call_msg :: evmc_message where
  "call_msg =
     \<lparr>msg_kind = EVMC_CALL, msg_flags = 0, msg_depth = 0, msg_gas = 100, msg_recipient = 0xbb,
      msg_sender = 0xaa, msg_input = [], msg_value = 0, msg_code_address = 0xbb\<rparr>"

definition stop_state :: exec_state where
  "stop_state = \<lparr>es_code = [OP_STOP], es_gas_left = 100, es_memory = [], es_msg_depth = 0\<rparr>"

definition success_result :: evmc_result where
  "success_result = \<lparr>res_status_code = EVMC_SUCCESS, res_gas_left = 100, res_output = []\<rparr>"

definition parent_trace :: Trace where
  "parent_trace = new_trace False call_msg []"

definition open_tracer :: TraceTracer where
  "open_tracer =
     \<lparr>tt_traces = [parent_trace], tt_created_address = {}, tt_index_stack = [0],
      tt_start_gas = [100], tt_initial_gas = 100, tt_current_depth = 0\<rparr>"

definition delegate_msg :: evmc_message where
  "delegate_msg =
     \<lparr>msg_kind = EVMC_DELEGATECALL, msg_flags = 0, msg_depth = 1, msg_gas = 50,
      msg_recipient = 0xbb, msg_sender = 0xaa, msg_input = [], msg_value = 0,
      msg_code_address = 0xcc\<rparr>"

definition addr_inv :: "nat list list \<Rightarrow> nat list \<Rightarrow> bool" where
  "addr_inv as ss \<longleftrightarrow>
     length ss = length as \<and> distinct as
     \<and> (\<forall>i<length as. \<forall>j<length as. \<forall>k. as ! j = as ! i @ [k] \<longrightarrow> k < ss ! i)
     \<and> (\<forall>j<length as. as ! j \<noteq> [] \<longrightarrow> butlast (as ! j) \<in> set as)
     \<and> (\<forall>i<length as. ss ! i =
           length (filter (\<lambda>j. extends_by_one (as ! i) (as ! j)) [Suc i..<length as]))"

definition open_inv :: "TraceTracer \<Rightarrow> bool" where
  "open_inv st \<longleftrightarrow>
     distinct (tt_index_stack st)
     \<and> length (tt_start_gas st) = length (tt_index_stack st)
     \<and> (\<forall>i \<in> set (tt_index_stack st).
           i < length (tt_traces st) \<and> trace_error (tt_traces st ! i) = None
           \<and> trace_result (tt_traces st ! i) \<noteq> None)"

definition tt_inv :: "TraceTracer \<Rightarrow> bool" where
  "tt_inv st \<longleftrightarrow>
     open_inv st
     \<and> addr_inv (map trace_trace_address (tt_traces st)) (map trace_sub_traces (tt_traces st))"

definition fresh_tracer :: TraceTracer where
  "fresh_tracer =
     \<lparr>tt_traces = [], tt_created_address = {}, tt_index_stack = [], tt_start_gas = [],
      tt_initial_gas = 0, tt_current_depth = 0\<rparr>"

definition child_open_tracer :: TraceTracer where
  "child_open_tracer =
     \<lparr>tt_traces = [parent_trace\<lparr>trace_sub_traces := 1\<rparr>,
                   (new_trace False delegate_msg [])\<lparr>trace_trace_address := [0]\<rparr>],
      tt_created_address = {}, tt_index_stack = [1, 0],
      tt_start_gas = [50, 100], tt_initial_gas = 100, tt_current_depth = 1\<rparr>"

definition revert_result :: evmc_result where
  "revert_result = \<lparr>res_status_code = EVMC_REVERT, res_gas_left = 7, res_output = [0xab]\<rparr>"

definition one_trace_call ::
  "unit \<Rightarrow> nat Block \<Rightarrow> nat \<Rightarrow> int \<Rightarrow> TraceConfig \<Rightarrow> TraceCallTraces
     \<Rightarrow> unit \<times> ExecutionResult \<times> TraceCallTraces" where
  "one_trace_call w block tx index config traces =
     (w, \<lparr>er_pre_check_error = (if tx = 0 then Some ''insufficient funds'' else None),
          er_data = [0x2a]\<rparr>,
      traces\<lparr>tct_trace := (if tc_trace config then [parent_trace] else [])\<rparr>)"

definition simple_collaborators :: "(unit, nat, nat) collaborators" where
  "simple_collaborators =
     \<lparr>ext_call = one_trace_call, ext_reset = (\<lambda>w. w), ext_from = (\<lambda>tx. None),
      ext_recover_sender = (\<lambda>tx. tx), ext_hash_of_transaction = (\<lambda>tx. of_nat tx),
      ext_to_transaction = (\<lambda>c. c),
      ext_compute_reward = (\<lambda>cc block. \<lparr>br_miner_reward = 2000000000000000000, br_ommer_rewards = []\<rparr>)\<rparr>"

definition one_tx_block :: "nat BlockWithHash" where
  "one_tx_block =
     \<lparr>bwh_block = \<lparr>block_number = 5, block_beneficiary = 0xc0, block_transactions = [7]\<rparr>,
      bwh_hash = 0x1234\<rparr>"

definition no_ethash_config :: ChainConfig where
  "no_ethash_config = \<lparr>cc_chain_id = 15555, cc_config = [''chainId'', ''homesteadBlock'']\<rparr>"

definition ethash_config :: ChainConfig where
  "ethash_config = \<lparr>cc_chain_id = 1, cc_config = [''chainId'', ''ethash'']\<rparr>"

definition trace_only :: TraceConfig where
  "trace_only = \<lparr>tc_vm_trace = False, tc_trace = True, tc_state_diff = False\<rparr>"

definition three_calls :: "nat TraceCall list" where
  "three_calls =
     [\<lparr>tcall_call = 7, tcall_trace_config = trace_only\<rparr>,
      \<lparr>tcall_call = 0, tcall_trace_config = trace_only\<rparr>,
      \<lparr>tcall_call = 9, tcall_trace_config = trace_only\<rparr>]"

definition absent_state :: IntraBlockState where
  "absent_state =
     \<lparr>ibs_exists = (\<lambda>a. False), ibs_get_balance = (\<lambda>a. 0), ibs_get_nonce = (\<lambda>a. 0),
      ibs_get_code = (\<lambda>a. []), ibs_get_original_storage = (\<lambda>a k. []),
      ibs_get_current_storage = (\<lambda>a k. []), ibs_touched = [0xdead]\<rparr>"

definition fresh_state_diff_tracer :: StateDiffTracer where
  "fresh_state_diff_tracer =
     \<lparr>sdt_state_diff = Map.empty, sdt_diff_storage = Map.empty,
      sdt_state_addresses =
        \<lparr>sa_balances = Map.empty, sa_nonces = Map.empty, sa_codes = Map.empty,
         sa_initial_ibs = absent_state, sa_exists = (\<lambda>a. False)\<rparr>\<rparr>"

definition frame_ok :: "store \<Rightarrow> nat \<Rightarrow> frame \<Rightarrow> bool" where
  "frame_ok s h f \<longleftrightarrow>
     (\<forall>v. node s h = Some v \<longrightarrow>
        length (vt_ops v) = f_count f
        \<and> (vt_ops v \<noteq> [] \<longrightarrow> op_code (last (vt_ops v)) = f_opcode f))"

definition subs_ok :: "store \<Rightarrow> bool" where
  "subs_ok s \<longleftrightarrow> (\<forall>h v. node s h = Some v \<longrightarrow> (\<forall>op \<in> set (vt_ops v). op_sub op \<noteq> Some 0))"

definition vmt_inv :: "VmTraceTracer \<Rightarrow> bool \<times> frame list \<Rightarrow> bool" where
  "vmt_inv st m \<longleftrightarrow>
     list_all2 (frame_ok (vmt_store st)) (vmt_traces_stack st) (snd m)
     \<and> distinct (vmt_traces_stack st)
     \<and> (\<forall>h \<in> set (vmt_traces_stack st). h < length (vmt_store st))
     \<and> (vmt_traces_stack st \<noteq> [] \<longrightarrow> last (vmt_traces_stack st) = 0)
     \<and> (\<exists>root. node (vmt_store st) 0 = Some root \<and> (\<not> fst m \<longrightarrow> vt_ops root = []))
     \<and> (\<not> fst m \<longrightarrow> snd m = [])
     \<and> (\<forall>f \<in> set (tl (snd m)). 0 < f_count f)
     \<and> (\<forall>f \<in> set (snd m). f_count f = 1 \<longrightarrow> f_height f = 0)
     \<and> subs_ok (vmt_store st)"

definition call_names :: "nat \<Rightarrow> u8 \<Rightarrow> string option" where
  "call_names revision c =
     (if c = OP_STOP then Some ''STOP'' else if c = OP_PUSH1 then Some ''PUSH1''
      else if c = OP_CALL then Some ''CALL'' else None)"

definition caller_state :: exec_state where
  "caller_state =
     \<lparr>es_code = [OP_PUSH1, 0x00, OP_CALL], es_gas_left = 90, es_memory = [], es_msg_depth = 0\<rparr>"

definition nested_msg :: evmc_message where
  "nested_msg =
     \<lparr>msg_kind = EVMC_CALL, msg_flags = 0, msg_depth = 1, msg_gas = 40, msg_recipient = 0xcc,
      msg_sender = 0xbb, msg_input = [], msg_value = 0, msg_code_address = 0xcc\<rparr>"

definition call_events :: "vm_event list" where
  "call_events =
     [ExecStart 0 call_msg [OP_PUSH1, 0x00, OP_CALL],
      InstrStart 0 (\<lambda>i. 0) 0 caller_state,
      InstrStart 2 (\<lambda>i. 0) 7 (caller_state\<lparr>es_gas_left := 87\<rparr>)]"

definition store_names :: "nat \<Rightarrow> u8 \<Rightarrow> string option" where
  "store_names revision c =
     (if c = OP_MSTORE8 then Some ''MSTORE8'' else if c = OP_STOP then Some ''STOP'' else None)"




definition store_tracer :: VmTraceTracer where
  "store_tracer =
     \<lparr>vmt_store = [Some \<lparr>vt_code = ''0x5300'', vt_ops = []\<rparr>],
      vmt_opcode_names = Some (store_names 0), vmt_transaction_index = - 1,
      vmt_index_prefix = [[]], vmt_start_gas = [100], vmt_traces_stack = [0]\<rparr>"

section \<open>Properties\<close>

subsection \<open>Memory windows of the VM trace\<close>

lemma to_hex_append: "to_hex (xs @ ys) = to_hex xs @ to_hex ys"
  by (simp add: to_hex_def)








subsection \<open>Closing a frame of the VM trace\<close>

lemma node_update_same: "h < length s \<Longrightarrow> node (s[h := x]) h = x"
  by (simp add: node_def)

lemma node_update_other: "h \<noteq> k \<Longrightarrow> node (s[h := x]) k = node s k"
  by (simp add: node_def)

lemma node_Some_length: "node s h = Some v \<Longrightarrow> h < length s"
  by (simp add: node_def split: if_splits)

lemma length_destroy_pass: "length (destroy_pass is dead s) = length s"
  by (induction "is" dead s rule: destroy_pass.induct) (simp_all split: option.splits)

lemma node_destroy_pass_other: "i \<notin> set is \<Longrightarrow> node (destroy_pass is dead s) i = node s i"
  by (induction "is" dead s rule: destroy_pass.induct)
     (auto simp: node_update_other split: option.splits)

lemma node_destroy_pass_cases:
  "node (destroy_pass is dead s) i = None \<or> node (destroy_pass is dead s) i = node s i"
proof (induction "is" dead s rule: destroy_pass.induct)
  case (1 dead s)
  then show ?case by simp
next
  case (2 j js dead s)
  show ?case
  proof (cases "j \<in> set dead")
    case True
    show ?thesis
    proof (cases "node s j")
      case None
      then show ?thesis using True 2 by simp
    next
      case (Some v)
      have "node (s[j := None]) i = None \<or> node (s[j := None]) i = node s i"
        by (cases "i = j") (simp_all add: node_def)
      then show ?thesis
        using True Some "2.IH"(2) [OF True Some] by auto
    qed
  next
    case False
    then show ?thesis using 2 by simp
  qed
qed

lemma length_release: "length (release p s) = length s"
  by (simp add: release_def destroy_def length_destroy_pass split: option.splits)

lemma node_release_cases: "node (release p s) i = None \<or> node (release p s) i = node s i"
  by (simp add: release_def destroy_def node_destroy_pass_cases split: option.splits)

lemma node_release_below: "(\<And>k. p = Some k \<Longrightarrow> i < k) \<Longrightarrow> node (release p s) i = node s i"
  by (cases p) (simp_all add: release_def destroy_def node_destroy_pass_other)

lemma update_last: "xs \<noteq> [] \<Longrightarrow> xs[length xs - Suc 0 := x] = butlast xs @ [x]"
  by (induction xs rule: rev_induct) (simp_all add: list_update_append)

text \<open>
  Claim C5. When \<open>on_execution_end\<close> fires with \<open>UNDEFINED_INSTRUCTION\<close> on a frame whose
  ops are not empty and are not the single \<open>STOP\<close>, the tail op is closed by the three
  updates in their order: \<open>used\<close> is set to the gas cost field \<open>g\<close>, then the gas cost to
  \<open>start_gas - g\<close>, then \<open>used\<close> is decreased by the new gas cost; the other ops and
  fields stay. So the gas cost ends as \<open>start_gas - g\<close> and \<open>used\<close> as
  \<open>2 * g - start_gas\<close>, in 64-bit arithmetic.
\<close>

theorem undefined_instruction_tail:
  assumes "vmt_traces_stack st = h # hs" and "vmt_start_gas st = start_gas # gs"
    and "vmt_index_prefix st = p # ps"
    and "node (vmt_store st) h = Some vm_trace" and "vt_ops vm_trace \<noteq> []"
    and "\<not> (length (vt_ops vm_trace) = 1 \<and> op_code (last (vt_ops vm_trace)) = OP_STOP)"
    and "res_status_code result = EVMC_UNDEFINED_INSTRUCTION"
  shows "\<exists>st1. vmt_on_execution_end st result = Inr st1 \<and>
           (let op = last (vt_ops vm_trace);
                g = op_gas_cost op;
                op1 = op\<lparr>op_trace_ex := (op_trace_ex op)\<lparr>ex_used := g\<rparr>\<rparr>;
                op2 = op1\<lparr>op_gas_cost := start_gas - g\<rparr>;
                op3 = op2\<lparr>op_trace_ex := (op_trace_ex op2)
                            \<lparr>ex_used := ex_used (op_trace_ex op2) - op_gas_cost op2\<rparr>\<rparr>
            in node (vmt_store st1) h = Some (vm_trace\<lparr>vt_ops := butlast (vt_ops vm_trace) @ [op3]\<rparr>)
               \<and> op_gas_cost op3 = start_gas - g
               \<and> ex_used (op_trace_ex op3) = 2 * g - start_gas)"
proof -
  let ?ops = "vt_ops vm_trace"
  define op3 where "op3 = finalize_tail_op result start_gas (last ?ops)"
  have h_lt: "h < length (vmt_store st)"
    using assms(4) by (rule node_Some_length)
  have last_nth: "?ops ! (length ?ops - Suc 0) = last ?ops"
    using assms(5) by (simp add: last_conv_nth)
  have upd: "?ops[length ?ops - Suc 0 := x] = butlast ?ops @ [x]" for x
    using assms(5) by (rule update_last)
  have not_stop: "(op_code (last ?ops) = OP_STOP \<and> length ?ops = Suc 0) = False"
    using assms(6) by auto
  have "vmt_on_execution_end st result =
          Inr (st\<lparr>vmt_traces_stack := hs, vmt_start_gas := gs, vmt_index_prefix := ps,
                  vmt_store := (vmt_store st)[h := Some (vm_trace\<lparr>vt_ops := butlast ?ops @ [op3]\<rparr>)]\<rparr>)"
    unfolding vmt_on_execution_end_def op3_def
    using assms(1-5) by (simp add: Let_def last_nth upd not_stop)
  then show ?thesis
    using h_lt assms(7)
    by (simp add: node_update_same op3_def finalize_tail_op_def Let_def)
qed

theorem undefined_instruction_tail_witness:
  "\<exists>st1. vmt_on_execution_end invalid_frame
            \<lparr>res_status_code = EVMC_UNDEFINED_INSTRUCTION, res_gas_left = 0, res_output = []\<rparr>
          = Inr st1
        \<and> map (\<lambda>op. (op_gas_cost op, ex_used (op_trace_ex op)))
              (vt_ops (the (node (vmt_store st1) 0))) = [(30, 40)]"
  using undefined_instruction_tail [of invalid_frame 0 "[]" 100 "[]" "[]" "[]"
          "\<lparr>vt_code = ''0xfe'', vt_ops = [invalid_op]\<rparr>"
          "\<lparr>res_status_code = EVMC_UNDEFINED_INSTRUCTION, res_gas_left = 0, res_output = []\<rparr>"]
  by (auto simp: node_def invalid_frame_def invalid_op_def empty_TraceEx_def Let_def)
text \<open>
  Claim C8. When the frame that ends holds exactly one op and its opcode is \<open>STOP\<close>,
  \<open>on_execution_end\<close> clears the ops of that frame's \<open>VmTrace\<close>, and the outcome is the
  same for every result: no closing of the tail op by status takes place. (An op of a
  trace owns only nodes allocated after that trace.) So a transaction that executes a
  single \<open>STOP\<close> at PC 0 leaves a root \<open>VmTrace\<close> with the code and with empty ops.
\<close>

lemma single_stop_end:
  assumes "vmt_traces_stack st = h # hs" and "vmt_start_gas st = start_gas # gs"
    and "vmt_index_prefix st = p # ps"
    and "node (vmt_store st) h = Some vm_trace" and "vt_ops vm_trace = [op]"
    and "op_code op = OP_STOP"
  shows "vmt_on_execution_end st result =
           Inr (st\<lparr>vmt_traces_stack := hs, vmt_start_gas := gs, vmt_index_prefix := ps,
                   vmt_store := release (op_sub op)
                                  ((vmt_store st)[h := Some (vm_trace\<lparr>vt_ops := []\<rparr>)])\<rparr>)"
  using assms by (simp add: vmt_on_execution_end_def Let_def)

theorem single_stop_clears_ops:
  "(vmt_traces_stack st = h # hs \<and> vmt_start_gas st = start_gas # gs
      \<and> vmt_index_prefix st = p # ps \<and> node (vmt_store st) h = Some vm_trace
      \<and> vt_ops vm_trace = [op] \<and> op_code op = OP_STOP \<and> (\<forall>k. op_sub op = Some k \<longrightarrow> h < k)
    \<longrightarrow> (\<exists>st1. vmt_on_execution_end st result = Inr st1
              \<and> node (vmt_store st1) h = Some (vm_trace\<lparr>vt_ops := []\<rparr>)
              \<and> vmt_on_execution_end st other_result = Inr st1))
   \<and> (msg_depth msg = 0 \<and> es_code es \<noteq> [] \<and> es_code es ! 0 = OP_STOP
    \<longrightarrow> (\<exists>st1. vmt_run names_table (vmt_init index)
                  [ExecStart revision msg code, InstrStart 0 stack stack_height es, ExecEnd result]
                = Inr st1
              \<and> node (vmt_store st1) 0 = Some \<lparr>vt_code = ''0x'' @ to_hex code, vt_ops = []\<rparr>))"
proof (intro conjI impI)
  assume a: "vmt_traces_stack st = h # hs \<and> vmt_start_gas st = start_gas # gs
      \<and> vmt_index_prefix st = p # ps \<and> node (vmt_store st) h = Some vm_trace
      \<and> vt_ops vm_trace = [op] \<and> op_code op = OP_STOP \<and> (\<forall>k. op_sub op = Some k \<longrightarrow> h < k)"
  let ?s = "(vmt_store st)[h := Some (vm_trace\<lparr>vt_ops := []\<rparr>)]"
  let ?st1 = "st\<lparr>vmt_traces_stack := hs, vmt_start_gas := gs, vmt_index_prefix := ps,
                  vmt_store := release (op_sub op) ?s\<rparr>"
  have h_lt: "h < length (vmt_store st)"
    using a by (auto dest: node_Some_length)
  have e1: "vmt_on_execution_end st result = Inr ?st1"
    using a by (intro single_stop_end) auto
  have e2: "vmt_on_execution_end st other_result = Inr ?st1"
    using a by (intro single_stop_end) auto
  have "node (release (op_sub op) ?s) h = node ?s h"
    using a by (intro node_release_below) auto
  then have "node (vmt_store ?st1) h = Some (vm_trace\<lparr>vt_ops := []\<rparr>)"
    using h_lt by (simp add: node_update_same)
  then show "\<exists>st1. vmt_on_execution_end st result = Inr st1
              \<and> node (vmt_store st1) h = Some (vm_trace\<lparr>vt_ops := []\<rparr>)
              \<and> vmt_on_execution_end st other_result = Inr st1"
    using e1 e2 by blast
next
  assume b: "msg_depth msg = 0 \<and> es_code es \<noteq> [] \<and> es_code es ! 0 = OP_STOP"
  let ?root = "\<lparr>vt_code = ''0x'' @ to_hex code, vt_ops = []\<rparr>"
  let ?prefix = "if index = - 1 then [] else dec_of_int index @ ''-''"
  let ?st1 = "\<lparr>vmt_store = [Some ?root], vmt_opcode_names = Some (names_table revision),
               vmt_transaction_index = index, vmt_index_prefix = [?prefix],
               vmt_start_gas = [msg_gas msg], vmt_traces_stack = [0]\<rparr>"
  let ?op = "new_trace_op (?prefix @ dec_of_nat 0) es OP_STOP
               (get_op_name (names_table revision) OP_STOP) 0 stack"
  let ?st2 = "?st1\<lparr>vmt_store := [Some (?root\<lparr>vt_ops := [?op]\<rparr>)]\<rparr>"
  have s1: "vmt_on_execution_start names_table (vmt_init index) revision msg code = Inr ?st1"
    using b by (simp add: vmt_on_execution_start_def vmt_init_def Let_def node_def empty_VmTrace_def)
  have s2: "vmt_on_instruction_start ?st1 0 stack stack_height es = Inr ?st2"
    using b by (simp add: vmt_on_instruction_start_def Let_def node_def)
  have code_stop: "op_code ?op = OP_STOP" and no_sub: "op_sub ?op = None"
    by (simp_all add: new_trace_op_def)
  have s3: "vmt_on_execution_end ?st2 result =
              Inr (?st2\<lparr>vmt_traces_stack := [], vmt_start_gas := [], vmt_index_prefix := [],
                        vmt_store := release (op_sub ?op)
                           ((vmt_store ?st2)[0 := Some ((?root\<lparr>vt_ops := [?op]\<rparr>)\<lparr>vt_ops := []\<rparr>)])\<rparr>)"
    by (rule single_stop_end [where start_gas = "msg_gas msg" and p = ?prefix])
       (simp_all add: node_def code_stop)
  show "\<exists>st1. vmt_run names_table (vmt_init index)
                  [ExecStart revision msg code, InstrStart 0 stack stack_height es, ExecEnd result]
                = Inr st1
              \<and> node (vmt_store st1) 0 = Some ?root"
    using s1 s2 s3 by (simp add: no_sub release_def node_def)
qed

theorem single_stop_clears_ops_witness:
  "\<exists>st1. vmt_run stop_names (vmt_init (- 1))
            [ExecStart 0 call_msg [OP_STOP], InstrStart 0 (\<lambda>i. 0) 0 stop_state, ExecEnd success_result]
          = Inr st1
        \<and> node (vmt_store st1) 0 = Some \<lparr>vt_code = ''0x00'', vt_ops = []\<rparr>"
proof -
  have "to_hex [OP_STOP] = ''00''"
    by code_simp
  then show ?thesis
    using single_stop_clears_ops [where msg = call_msg and es = stop_state
            and names_table = stop_names and index = "- 1" and revision = 0 and code = "[OP_STOP]"
            and stack = "\<lambda>i. 0" and stack_height = 0 and result = success_result]
    by (simp add: call_msg_def stop_state_def)
qed

subsection \<open>The VM tracer under the callbacks of an interpreter\<close>

lemma node_append:
  "node (s @ [x]) h = (if h < length s then node s h else if h = length s then x else None)"
  by (simp add: node_def nth_append)

lemma node_update:
  "node (s[h := x]) k = (if k = h \<and> h < length s then x else node s k)"
  by (simp add: node_def)

lemma node_release_root:
  "p \<noteq> Some 0 \<Longrightarrow> node (release p s) 0 = node s 0"
  by (rule node_release_below) auto

lemma frame_ok_kept:
  "frame_ok s h f \<Longrightarrow> node s1 h = None \<or> node s1 h = node s h \<Longrightarrow> frame_ok s1 h f"
  by (auto simp: frame_ok_def)

lemma frames_kept:
  assumes "list_all2 (frame_ok s) hs fs"
    and "\<And>h. h \<in> set hs \<Longrightarrow> node s1 h = None \<or> node s1 h = node s h"
  shows "list_all2 (frame_ok s1) hs fs"
  using assms
  by (induction hs fs rule: list_all2_induct) (auto intro: frame_ok_kept)

lemma frames_last:
  "list_all2 P hs fs \<Longrightarrow> hs \<noteq> [] \<Longrightarrow> P (last hs) (last fs)"
  by (induction hs fs rule: list_all2_induct) (auto simp: list_all2_Nil)

lemma subs_ok_step:
  assumes "subs_ok s"
    and "\<And>h v. node s1 h = Some v \<Longrightarrow>
           node s h = Some v \<or> (\<forall>op \<in> set (vt_ops v). op_sub op \<noteq> Some 0)"
  shows "subs_ok s1"
  using assms unfolding subs_ok_def by blast

lemma set_update_last:
  "op \<in> set (ops[n := x]) \<Longrightarrow> op = x \<or> op \<in> set ops"
  by (auto dest: set_update_subset_insert [THEN subsetD])

text \<open>The outcome of each callback when it returns.\<close>

lemma vmt_start_root:
  assumes "vmt_on_execution_start names_table st revision msg code = Inr st1"
    and "msg_depth msg = 0"
  shows "\<exists>root. node (vmt_store st) 0 = Some root
           \<and> vmt_store st1 = (vmt_store st)[0 := Some (root\<lparr>vt_code := ''0x'' @ to_hex code\<rparr>)]
           \<and> vmt_traces_stack st1 = 0 # vmt_traces_stack st"
  using assms
  by (auto simp: vmt_on_execution_start_def Let_def split: option.splits if_splits)

lemma vmt_start_nested:
  assumes "vmt_on_execution_start names_table st revision msg code = Inr st1"
    and "msg_depth msg \<noteq> 0"
    and "node (vmt_store st) 0 = Some root" and "vt_ops root \<noteq> []"
  shows "\<exists>h hs vm_trace op1.
           vmt_traces_stack st = h # hs
           \<and> node (vmt_store st) h = Some vm_trace
           \<and> vt_ops vm_trace \<noteq> []
           \<and> op_code op1 = op_code (last (vt_ops vm_trace))
           \<and> op_sub op1 = op_sub (last (vt_ops vm_trace))
           \<and> vmt_store st1 =
               release (op_sub op1)
                 ((vmt_store st)[h := Some (vm_trace\<lparr>vt_ops :=
                     (vt_ops vm_trace)[length (vt_ops vm_trace) - 1 :=
                        op1\<lparr>op_sub := Some (length (vmt_store st))\<rparr>]\<rparr>)])
               @ [Some \<lparr>vt_code = ''0x'' @ to_hex code, vt_ops = []\<rparr>]
           \<and> vmt_traces_stack st1 = length (vmt_store st) # h # hs"
proof -
  obtain h hs where stack: "vmt_traces_stack st = h # hs"
    using assms
    by (cases "vmt_traces_stack st")
       (auto simp: vmt_on_execution_start_def Let_def split: if_splits)
  obtain vm_trace where vm: "node (vmt_store st) h = Some vm_trace"
    using assms stack
    by (cases "node (vmt_store st) h")
       (auto simp: vmt_on_execution_start_def Let_def split: if_splits list.splits)
  obtain p ps where prefix: "vmt_index_prefix st = p # ps"
    using assms stack vm
    by (cases "vmt_index_prefix st")
       (auto simp: vmt_on_execution_start_def Let_def split: if_splits)
  have ne: "vt_ops vm_trace \<noteq> []"
    using assms stack vm prefix
    by (auto simp: vmt_on_execution_start_def Let_def split: if_splits)
  let ?ops = "vt_ops vm_trace"
  have last_nth: "?ops ! (length ?ops - Suc 0) = last ?ops"
    using ne by (simp add: last_conv_nth)
  show ?thesis
  proof (cases "is_call_op (op_code (last ?ops))")
    case True
    then show ?thesis
      using assms stack vm prefix ne last_nth
      by (auto simp: vmt_on_execution_start_def Let_def split: if_splits
               intro!: exI [where x = "(last ?ops)\<lparr>op_depth := msg_depth msg,
                          op_gas_cost := op_gas_cost (last ?ops) - msg_gas msg,
                          op_call_gas_cap := Some (ex_used (op_trace_ex (?ops ! (length ?ops - 2))) - msg_gas msg)\<rparr>"])
  next
    case False
    then show ?thesis
      using assms stack vm prefix ne last_nth
      by (auto simp: vmt_on_execution_start_def Let_def split: if_splits
               intro!: exI [where x = "last ?ops"])
  qed
qed

lemma vmt_instruction:
  assumes "vmt_on_instruction_start st pc stack stack_height es = Inr st1"
  shows "\<exists>h hs vm_trace ops trace_op.
           vmt_traces_stack st = h # hs
           \<and> node (vmt_store st) h = Some vm_trace
           \<and> length ops = length (vt_ops vm_trace)
           \<and> (\<forall>op \<in> set ops. \<exists>op0 \<in> set (vt_ops vm_trace). op_sub op = op_sub op0)
           \<and> op_code trace_op = es_code es ! unat pc
           \<and> op_sub trace_op = None
           \<and> vmt_store st1 = (vmt_store st)[h := Some (vm_trace\<lparr>vt_ops := ops @ [trace_op]\<rparr>)]
           \<and> vmt_traces_stack st1 = vmt_traces_stack st"
proof -
  obtain names where names: "vmt_opcode_names st = Some names"
    using assms by (cases "vmt_opcode_names st") (auto simp: vmt_on_instruction_start_def Let_def split: if_splits)
  obtain h hs where stack: "vmt_traces_stack st = h # hs"
    using assms names
    by (cases "vmt_traces_stack st") (auto simp: vmt_on_instruction_start_def Let_def split: if_splits)
  obtain vm_trace where vm: "node (vmt_store st) h = Some vm_trace"
    using assms names stack
    by (cases "node (vmt_store st) h") (auto simp: vmt_on_instruction_start_def Let_def split: if_splits)
  obtain p ps where prefix: "vmt_index_prefix st = p # ps"
    using assms names stack vm
    by (cases "vmt_index_prefix st")
       (auto simp: vmt_on_instruction_start_def Let_def split: if_splits sum.splits)
  let ?ops = "vt_ops vm_trace"
  let ?c = "es_code es ! unat pc"
  have fields: "op_code (new_trace_op ip es ?c nm pc stack) = ?c"
    "op_sub (new_trace_op ip es ?c nm pc stack) = None" for ip nm
    by (simp_all add: new_trace_op_def)
  show ?thesis
  proof (cases "?ops = []")
    case True
    have "vmt_store st1 = (vmt_store st)[h := Some (vm_trace\<lparr>vt_ops := []
            @ [new_trace_op (p @ dec_of_nat (length ?ops)) es ?c (get_op_name names ?c) pc stack]\<rparr>)]
          \<and> vmt_traces_stack st1 = vmt_traces_stack st"
      using assms names stack vm prefix True
      by (auto simp: vmt_on_instruction_start_def Let_def split: if_splits)
    then show ?thesis
      using stack vm True fields
      by (intro exI [where x = h] exI [where x = hs] exI [where x = vm_trace]
                exI [where x = "[]"]
                exI [where x = "new_trace_op (p @ dec_of_nat (length ?ops)) es ?c (get_op_name names ?c) pc stack"])
         simp
  next
    case False
    then obtain op where fin: "finalize_previous_op es stack (last ?ops) = Inr op"
      using assms names stack vm prefix
      by (cases "finalize_previous_op es stack (last ?ops)")
         (auto simp: vmt_on_instruction_start_def Let_def split: if_splits)
    have sub: "op_sub op = op_sub (last ?ops)"
      using fin by (auto simp: finalize_previous_op_def Let_def split: sum.splits)
    have mem: "\<forall>op' \<in> set (butlast ?ops @ [op]). \<exists>op0 \<in> set ?ops. op_sub op' = op_sub op0"
      using False sub by (auto dest: in_set_butlastD)
    have "vmt_store st1 = (vmt_store st)[h := Some (vm_trace\<lparr>vt_ops := (butlast ?ops @ [op])
            @ [new_trace_op (p @ dec_of_nat (length (butlast ?ops @ [op]))) es ?c
                 (get_op_name names ?c) pc stack]\<rparr>)]
          \<and> vmt_traces_stack st1 = vmt_traces_stack st"
      using assms names stack vm prefix False fin
      by (auto simp: vmt_on_instruction_start_def Let_def split: if_splits)
    then show ?thesis
      using stack vm mem False fields
      by (intro exI [where x = h] exI [where x = hs] exI [where x = vm_trace]
                exI [where x = "butlast ?ops @ [op]"]
                exI [where x = "new_trace_op (p @ dec_of_nat (length (butlast ?ops @ [op]))) es ?c
                                  (get_op_name names ?c) pc stack"])
         simp
  qed
qed

lemma vmt_precompiled:
  assumes "vmt_on_precompiled_run st result gas = Inr st1"
  shows "vmt_traces_stack st1 = vmt_traces_stack st
         \<and> (\<exists>root. node (vmt_store st) 0 = Some root
              \<and> (if vt_ops root = [] then vmt_store st1 = vmt_store st
                  else \<exists>op1. op_code op1 = op_code (last (vt_ops root))
                         \<and> op_sub op1 = Some (length (vmt_store st))
                         \<and> vmt_store st1 =
                             release (op_sub (last (vt_ops root)))
                               ((vmt_store st)[0 := Some (root\<lparr>vt_ops := butlast (vt_ops root) @ [op1]\<rparr>)])
                             @ [Some \<lparr>vt_code = ''0x'', vt_ops = []\<rparr>]))"
proof -
  obtain root where root: "node (vmt_store st) 0 = Some root"
    using assms by (cases "node (vmt_store st) 0") (auto simp: vmt_on_precompiled_run_def Let_def)
  show ?thesis
  proof (cases "vt_ops root = []")
    case True
    then show ?thesis
      using assms root by (auto simp: vmt_on_precompiled_run_def Let_def)
  next
    case False
    let ?op1 = "(last (vt_ops root))\<lparr>op_precompiled_call_gas := Some gas,
                   op_sub := Some (length (vmt_store st))\<rparr>"
    have "vmt_traces_stack st1 = vmt_traces_stack st"
      and "vmt_store st1 =
             release (op_sub (last (vt_ops root)))
               ((vmt_store st)[0 := Some (root\<lparr>vt_ops := butlast (vt_ops root) @ [?op1]\<rparr>)])
             @ [Some \<lparr>vt_code = ''0x'', vt_ops = []\<rparr>]"
      using assms root False by (auto simp: vmt_on_precompiled_run_def Let_def)
    then show ?thesis
      using root False
      by (intro conjI exI [where x = root]) (auto intro!: exI [where x = ?op1])
  qed
qed

lemma vmt_end:
  assumes "vmt_on_execution_end st result = Inr st1"
  shows "\<exists>h hs vm_trace v1 p.
           vmt_traces_stack st = h # hs
           \<and> node (vmt_store st) h = Some vm_trace
           \<and> (\<forall>op \<in> set (vt_ops v1). \<exists>op0 \<in> set (vt_ops vm_trace). op_sub op = op_sub op0)
           \<and> (p = None \<or> (\<exists>op0 \<in> set (vt_ops vm_trace). p = op_sub op0))
           \<and> vmt_store st1 = release p ((vmt_store st)[h := Some v1])
           \<and> vmt_traces_stack st1 = hs"
proof -
  obtain h hs where stack: "vmt_traces_stack st = h # hs"
    using assms by (cases "vmt_traces_stack st") (auto simp: vmt_on_execution_end_def)
  obtain g gs where gas: "vmt_start_gas st = g # gs"
    using assms stack by (cases "vmt_start_gas st") (auto simp: vmt_on_execution_end_def)
  obtain q qs where prefix: "vmt_index_prefix st = q # qs"
    using assms stack gas by (cases "vmt_index_prefix st") (auto simp: vmt_on_execution_end_def)
  obtain vm_trace where vm: "node (vmt_store st) h = Some vm_trace"
    using assms stack gas prefix
    by (cases "node (vmt_store st) h") (auto simp: vmt_on_execution_end_def Let_def)
  have h_lt: "h < length (vmt_store st)"
    using vm by (rule node_Some_length)
  let ?ops = "vt_ops vm_trace"
  consider (empty) "?ops = []"
    | (stop) "?ops \<noteq> []" "op_code (last ?ops) = OP_STOP \<and> length ?ops = Suc 0"
    | (other) "?ops \<noteq> []" "(op_code (last ?ops) = OP_STOP \<and> length ?ops = Suc 0) = False"
    by blast
  then show ?thesis
  proof cases
    case empty
    then have "vmt_store st1 = vmt_store st" "vmt_traces_stack st1 = hs"
      using assms stack gas prefix vm by (auto simp: vmt_on_execution_end_def Let_def)
    moreover have "(vmt_store st)[h := Some vm_trace] = vmt_store st"
      using vm h_lt by (simp add: node_def list_update_same_conv)
    ultimately show ?thesis
      using stack vm empty
      by (intro exI [where x = h] exI [where x = hs] exI [where x = vm_trace]
                exI [where x = vm_trace] exI [where x = None])
         (simp add: release_def)
  next
    case stop
    have last_nth: "?ops ! (length ?ops - Suc 0) = last ?ops"
      using stop(1) by (simp add: last_conv_nth)
    have "vmt_store st1 = release (op_sub (last ?ops)) ((vmt_store st)[h := Some (vm_trace\<lparr>vt_ops := []\<rparr>)])"
      "vmt_traces_stack st1 = hs"
      using assms stack gas prefix vm stop last_nth
      by (auto simp: vmt_on_execution_end_def Let_def)
    then show ?thesis
      using stack vm stop(1)
      by (intro exI [where x = h] exI [where x = hs] exI [where x = vm_trace]
                exI [where x = "vm_trace\<lparr>vt_ops := []\<rparr>"] exI [where x = "op_sub (last ?ops)"])
         auto
  next
    case other
    have last_nth: "?ops ! (length ?ops - Suc 0) = last ?ops"
      using other(1) by (simp add: last_conv_nth)
    let ?v1 = "vm_trace\<lparr>vt_ops := ?ops[length ?ops - Suc 0 := finalize_tail_op result g (last ?ops)]\<rparr>"
    have "vmt_store st1 = (vmt_store st)[h := Some ?v1]" "vmt_traces_stack st1 = hs"
      using assms stack gas prefix vm other(1) last_nth
      by (auto simp: vmt_on_execution_end_def Let_def other(2))
    moreover have "op_sub (finalize_tail_op result g (last ?ops)) = op_sub (last ?ops)"
      by (cases "res_status_code result") (simp_all add: finalize_tail_op_def Let_def)
    ultimately show ?thesis
      using stack vm other(1)
      by (intro exI [where x = h] exI [where x = hs] exI [where x = vm_trace]
                exI [where x = ?v1] exI [where x = None])
         (auto simp: release_def dest!: set_update_last)
  qed
qed


text \<open>The nodes of a store after an update at one handle, a release and an
  allocation.\<close>

lemma node_append_left: "i < length s \<Longrightarrow> node (s @ xs) i = node s i"
  by (simp add: node_def nth_append)

lemma node_append_new: "node (s @ [x]) (length s) = x"
  by (simp add: node_def)

lemma stepped_other:
  "i \<noteq> h \<Longrightarrow> node (release p (s[h := x])) i = None \<or> node (release p (s[h := x])) i = node s i"
  using node_release_cases [of p "s[h := x]" i] by (simp add: node_update)

lemma stepped_same:
  "node (release p (s[h := x])) h = None \<or> node (release p (s[h := x])) h = x
   \<or> node (release p (s[h := x])) h = node s h"
  using node_release_cases [of p "s[h := x]" h]
  by (cases "h < length s") (auto simp: node_update)

lemma stepped_root:
  "p \<noteq> Some 0 \<Longrightarrow> h < length s \<Longrightarrow>
   node (release p (s[h := x])) 0 = (if h = 0 then x else node s 0)"
  by (simp add: node_release_root node_update)

lemma stepped_any:
  "node (release p (s[h := x])) i = Some v \<Longrightarrow> (i = h \<and> x = Some v) \<or> node s i = Some v"
  using node_release_cases [of p "s[h := x]" i]
  by (cases "i = h"; cases "h < length s") (auto simp: node_update)

lemma vmt_inv_init: "vmt_inv (vmt_init index) (False, [])"
  by (auto simp: vmt_inv_def vmt_init_def node_def empty_VmTrace_def subs_ok_def split: if_splits)

lemma last_update_last:
  "ops \<noteq> [] \<Longrightarrow> last (ops[length ops - 1 := x]) = x"
  by (induction ops rule: rev_induct) (simp_all add: list_update_append)

lemma vmt_inv_call_site:
  assumes inv: "vmt_inv st m"
    and step: "evm_step m (ExecStart revision msg code) = Some m1"
    and depth: "msg_depth msg > 0"
    and stack: "vmt_traces_stack st = h # hs"
    and parent: "node (vmt_store st) h = Some parent"
  shows "vt_ops parent \<noteq> []
         \<and> (is_call_op (op_code (last (vt_ops parent))) \<longrightarrow> 2 \<le> length (vt_ops parent))"
proof -
  obtain started fs where m: "m = (started, fs)"
    by (cases m)
  obtain f fs1 where fs: "fs = f # fs1"
    using inv stack m by (cases fs) (auto simp: vmt_inv_def)
  obtain k where k: "call_operands (f_opcode f) = Some k" "0 < f_count f" "int k \<le> f_height f"
    using step m fs by (auto split: if_splits option.splits)
  have ok: "frame_ok (vmt_store st) h f"
    using inv stack m fs by (simp add: vmt_inv_def)
  then have len: "length (vt_ops parent) = f_count f"
    and code: "vt_ops parent \<noteq> [] \<Longrightarrow> op_code (last (vt_ops parent)) = f_opcode f"
    using parent by (auto simp: frame_ok_def)
  have ne: "vt_ops parent \<noteq> []"
    using len k(2) by auto
  have "2 \<le> length (vt_ops parent)" if "is_call_op (op_code (last (vt_ops parent)))"
  proof -
    have "6 \<le> k"
      using that k(1) code [OF ne]
      by (auto simp: is_call_op_def call_operands_def split: if_splits)
    then have "f_height f \<noteq> 0"
      using k(3) by simp
    moreover have "f_count f = 1 \<longrightarrow> f_height f = 0"
      using inv m fs by (simp add: vmt_inv_def)
    ultimately show ?thesis
      using len k(2) by simp
  qed
  then show ?thesis
    using ne by simp
qed

lemma vmt_inv_exec_start:
  assumes inv: "vmt_inv st m"
    and step: "evm_step m (ExecStart revision msg code) = Some m1"
    and run: "vmt_on_execution_start names_table st revision msg code = Inr st1"
  shows "vmt_inv st1 m1"
proof -
  obtain started fs where m: "m = (started, fs)"
    by (cases m)
  let ?s = "vmt_store st"
  have frames: "list_all2 (frame_ok ?s) (vmt_traces_stack st) fs"
    and dist: "distinct (vmt_traces_stack st)"
    and bound: "\<forall>h \<in> set (vmt_traces_stack st). h < length ?s"
    and bottom: "vmt_traces_stack st \<noteq> [] \<longrightarrow> last (vmt_traces_stack st) = 0"
    and not_started: "\<not> started \<longrightarrow> fs = []"
    and lower: "\<forall>f \<in> set (tl fs). 0 < f_count f"
    and first: "\<forall>f \<in> set fs. f_count f = 1 \<longrightarrow> f_height f = 0"
    and subs: "subs_ok ?s"
    using inv m by (simp_all add: vmt_inv_def)
  obtain root where root: "node ?s 0 = Some root" and fresh_root: "\<not> started \<longrightarrow> vt_ops root = []"
    using inv m by (auto simp: vmt_inv_def)
  have pos: "0 < length ?s"
    using root by (auto dest: node_Some_length)
  show ?thesis
  proof (cases fs)
    case Nil
    then have d0: "msg_depth msg = 0" and ns: "\<not> started" and m1: "m1 = (True, [Frame 0 0 0])"
      using step m by (auto split: if_splits)
    have stack: "vmt_traces_stack st = []"
      using frames Nil by simp
    obtain root1 where r1: "node ?s 0 = Some root1"
      and s1: "vmt_store st1 = ?s[0 := Some (root1\<lparr>vt_code := ''0x'' @ to_hex code\<rparr>)]"
      and h1: "vmt_traces_stack st1 = 0 # vmt_traces_stack st"
      using vmt_start_root [OF run d0] by blast
    have same: "root1 = root"
      using r1 root by simp
    have empty: "vt_ops root = []"
      using fresh_root ns by simp
    have n0: "node (vmt_store st1) 0 = Some (root\<lparr>vt_code := ''0x'' @ to_hex code\<rparr>)"
      using pos by (simp add: s1 same node_update)
    have "frame_ok (vmt_store st1) 0 (Frame 0 0 0)"
      using n0 empty by (simp add: frame_ok_def)
    moreover have "subs_ok (vmt_store st1)"
    proof (rule subs_ok_step [OF subs])
      fix h v assume "node (vmt_store st1) h = Some v"
      then show "node ?s h = Some v \<or> (\<forall>op \<in> set (vt_ops v). op_sub op \<noteq> Some 0)"
        using empty by (auto simp: s1 same node_update split: if_splits)
    qed
    ultimately show ?thesis
      using n0 pos by (simp add: vmt_inv_def m1 h1 stack s1)
  next
    case (Cons f fs1)
    obtain k where k: "call_operands (f_opcode f) = Some k" "0 < f_count f" "int k \<le> f_height f"
      and depth: "msg_depth msg = int (length fs)"
      and m1: "m1 = (started, Frame 0 0 0 # f # fs1)"
      using step m Cons by (auto split: if_splits option.splits)
    have d_pos: "msg_depth msg \<noteq> 0"
      using depth Cons by simp
    have st_true: started
      using not_started Cons by auto
    obtain h hs where stack: "vmt_traces_stack st = h # hs"
      using frames Cons by (cases "vmt_traces_stack st") auto
    have ok_h: "frame_ok ?s h f" and ok_hs: "list_all2 (frame_ok ?s) hs fs1"
      using frames stack Cons by simp_all
    have "frame_ok ?s (last (vmt_traces_stack st)) (last fs)"
      using frames_last [OF frames] stack by simp
    then have "frame_ok ?s 0 (last fs)"
      using bottom stack by simp
    moreover have "0 < f_count (last fs)"
      using lower k(2) Cons by (cases fs1) auto
    ultimately have root_ops: "vt_ops root \<noteq> []"
      using root by (auto simp: frame_ok_def)
    obtain h0 hs0 vm_trace op1 where
      stack0: "vmt_traces_stack st = h0 # hs0"
      and vm: "node ?s h0 = Some vm_trace"
      and ne: "vt_ops vm_trace \<noteq> []"
      and code1: "op_code op1 = op_code (last (vt_ops vm_trace))"
      and sub1: "op_sub op1 = op_sub (last (vt_ops vm_trace))"
      and s1: "vmt_store st1 =
               release (op_sub op1)
                 (?s[h0 := Some (vm_trace\<lparr>vt_ops :=
                     (vt_ops vm_trace)[length (vt_ops vm_trace) - 1 :=
                        op1\<lparr>op_sub := Some (length ?s)\<rparr>]\<rparr>)])
               @ [Some \<lparr>vt_code = ''0x'' @ to_hex code, vt_ops = []\<rparr>]"
      and h1: "vmt_traces_stack st1 = length ?s # h0 # hs0"
      using vmt_start_nested [OF run d_pos root root_ops] by blast
    have h0: "h0 = h" "hs0 = hs"
      using stack stack0 by simp_all
    let ?ops = "vt_ops vm_trace"
    let ?ops1 = "?ops[length ?ops - 1 := op1\<lparr>op_sub := Some (length ?s)\<rparr>]"
    let ?vm1 = "vm_trace\<lparr>vt_ops := ?ops1\<rparr>"
    let ?mid = "release (op_sub op1) (?s[h := Some ?vm1])"
    have s1': "vmt_store st1 = ?mid @ [Some \<lparr>vt_code = ''0x'' @ to_hex code, vt_ops = []\<rparr>]"
      using s1 h0 by simp
    have len_mid: "length ?mid = length ?s"
      by (simp add: length_release)
    have h_lt: "h < length ?s"
      using bound stack by simp
    have old: "node (vmt_store st1) i = node ?mid i" if "i < length ?s" for i
      using that by (simp add: s1' node_append_left length_release)
    have new: "node (vmt_store st1) (length ?s) = Some \<lparr>vt_code = ''0x'' @ to_hex code, vt_ops = []\<rparr>"
      using node_append_new [of ?mid] by (simp add: s1' length_release)
    have in_ops: "last ?ops \<in> set ?ops"
      using ne by simp
    have sub_ne: "op_sub op1 \<noteq> Some 0"
      using subs vm h0 in_ops sub1 by (auto simp: subs_ok_def)
    have last1: "last ?ops1 = op1\<lparr>op_sub := Some (length ?s)\<rparr>"
      using ne by (rule last_update_last)
    have "op_code (last ?ops) = f_opcode f" and len_f: "length ?ops = f_count f"
      using ok_h vm h0 ne by (auto simp: frame_ok_def)
    then have "op_code (last ?ops1) = f_opcode f"
      unfolding last1 using code1 by simp
    then have vm1_ok: "length (vt_ops ?vm1) = f_count f \<and> (vt_ops ?vm1 \<noteq> [] \<longrightarrow> op_code (last (vt_ops ?vm1)) = f_opcode f)"
      using len_f by simp
    have f1: "frame_ok (vmt_store st1) (length ?s) (Frame 0 0 0)"
      using new by (simp add: frame_ok_def)
    have f2: "frame_ok (vmt_store st1) h f"
      using stepped_same [of "op_sub op1" ?s h "Some ?vm1"] vm1_ok ok_h old [OF h_lt]
      by (auto simp: frame_ok_def)
    have f3: "list_all2 (frame_ok (vmt_store st1)) hs fs1"
    proof (rule frames_kept [OF ok_hs])
      fix i assume i: "i \<in> set hs"
      then have "i \<noteq> h" "i < length ?s"
        using dist bound stack by auto
      then show "node (vmt_store st1) i = None \<or> node (vmt_store st1) i = node ?s i"
        using stepped_other [of i h "op_sub op1" ?s "Some ?vm1"] old by simp
    qed
    have r: "\<exists>root. node (vmt_store st1) 0 = Some root"
      using stepped_root [OF sub_ne h_lt, of "Some ?vm1"] root old [OF pos] by auto
    have sb: "subs_ok (vmt_store st1)"
    proof (rule subs_ok_step [OF subs])
      fix i v assume iv: "node (vmt_store st1) i = Some v"
      show "node ?s i = Some v \<or> (\<forall>op \<in> set (vt_ops v). op_sub op \<noteq> Some 0)"
      proof (cases "i < length ?s")
        case True
        then have "node ?mid i = Some v"
          using iv old by simp
        then have "(i = h \<and> Some ?vm1 = Some v) \<or> node ?s i = Some v"
          by (rule stepped_any)
        moreover have "\<forall>op \<in> set ?ops1. op_sub op \<noteq> Some 0"
          using subs vm h0 pos by (auto simp: subs_ok_def dest!: set_update_last)
        ultimately show ?thesis by auto
      next
        case False
        then have "v = \<lparr>vt_code = ''0x'' @ to_hex code, vt_ops = []\<rparr>"
          using iv by (auto simp: s1' node_append length_release split: if_splits)
        then show ?thesis by simp
      qed
    qed
    have d1: "distinct (length ?s # h # hs)"
      using dist bound stack by auto
    have b1: "\<forall>i \<in> set (length ?s # h # hs). i < length (vmt_store st1)"
      using bound stack by (auto simp: s1' length_release)
    have l1: "last (length ?s # h # hs) = 0"
      using bottom stack by simp
    show ?thesis
      unfolding vmt_inv_def m1 h1 h0
      using f1 f2 f3 d1 b1 l1 r sb st_true lower first k(2) Cons
      by simp
  qed
qed

lemma frames_mono:
  assumes "list_all2 (frame_ok s) hs fs"
    and "\<And>h f. h \<in> set hs \<Longrightarrow> frame_ok s h f \<Longrightarrow> frame_ok s1 h f"
  shows "list_all2 (frame_ok s1) hs fs"
  using assms
  by (induction hs fs rule: list_all2_induct) auto

lemma vmt_inv_instruction:
  assumes inv: "vmt_inv st m"
    and step: "evm_step m (InstrStart pc stack stack_height es) = Some m1"
    and run: "vmt_on_instruction_start st pc stack stack_height es = Inr st1"
  shows "vmt_inv st1 m1"
proof -
  obtain started fs where m: "m = (started, fs)"
    by (cases m)
  let ?s = "vmt_store st"
  obtain f fs1 where fs: "fs = f # fs1"
    and first_instr: "f_count f = 0 \<longrightarrow> stack_height = 0"
    and m1: "m1 = (started, Frame (f_count f + 1) stack_height (es_code es ! unat pc) # fs1)"
    using step m by (cases fs) (auto split: if_splits)
  have frames: "list_all2 (frame_ok ?s) (vmt_traces_stack st) fs"
    and dist: "distinct (vmt_traces_stack st)"
    and bound: "\<forall>h \<in> set (vmt_traces_stack st). h < length ?s"
    and bottom: "vmt_traces_stack st \<noteq> [] \<longrightarrow> last (vmt_traces_stack st) = 0"
    and not_started: "\<not> started \<longrightarrow> fs = []"
    and lower: "\<forall>f \<in> set (tl fs). 0 < f_count f"
    and first: "\<forall>f \<in> set fs. f_count f = 1 \<longrightarrow> f_height f = 0"
    and subs: "subs_ok ?s"
    using inv m by (simp_all add: vmt_inv_def)
  obtain root where root: "node ?s 0 = Some root"
    using inv m by (auto simp: vmt_inv_def)
  obtain h hs vm_trace ops trace_op where
    stack: "vmt_traces_stack st = h # hs"
    and vm: "node ?s h = Some vm_trace"
    and len: "length ops = length (vt_ops vm_trace)"
    and ops_subs: "\<forall>op \<in> set ops. \<exists>op0 \<in> set (vt_ops vm_trace). op_sub op = op_sub op0"
    and code: "op_code trace_op = es_code es ! unat pc"
    and no_sub: "op_sub trace_op = None"
    and s1: "vmt_store st1 = ?s[h := Some (vm_trace\<lparr>vt_ops := ops @ [trace_op]\<rparr>)]"
    and h1: "vmt_traces_stack st1 = vmt_traces_stack st"
    using vmt_instruction [OF run] by blast
  let ?vm1 = "vm_trace\<lparr>vt_ops := ops @ [trace_op]\<rparr>"
  have h_lt: "h < length ?s"
    using vm by (rule node_Some_length)
  have ok_h: "frame_ok ?s h f" and ok_hs: "list_all2 (frame_ok ?s) hs fs1"
    using frames stack fs by simp_all
  have count: "length (vt_ops vm_trace) = f_count f"
    using ok_h vm by (simp add: frame_ok_def)
  have f1: "frame_ok (vmt_store st1) h (Frame (f_count f + 1) stack_height (es_code es ! unat pc))"
    using h_lt len count code by (simp add: frame_ok_def s1 node_update)
  have f2: "list_all2 (frame_ok (vmt_store st1)) hs fs1"
  proof (rule frames_kept [OF ok_hs])
    fix i assume "i \<in> set hs"
    then have "i \<noteq> h"
      using dist stack by auto
    then show "node (vmt_store st1) i = None \<or> node (vmt_store st1) i = node ?s i"
      by (simp add: s1 node_update)
  qed
  have r: "\<exists>root. node (vmt_store st1) 0 = Some root"
    using root by (simp add: s1 node_update)
  have sb: "subs_ok (vmt_store st1)"
  proof (rule subs_ok_step [OF subs])
    fix i v assume iv: "node (vmt_store st1) i = Some v"
    have "\<forall>op \<in> set (ops @ [trace_op]). op_sub op \<noteq> Some 0"
      using subs vm ops_subs no_sub by (fastforce simp: subs_ok_def)
    then show "node ?s i = Some v \<or> (\<forall>op \<in> set (vt_ops v). op_sub op \<noteq> Some 0)"
      using iv by (auto simp: s1 node_update split: if_splits)
  qed
  have started: started
    using not_started fs by auto
  show ?thesis
    unfolding vmt_inv_def m1 h1 stack
    using f1 f2 dist bound bottom r sb started lower first first_instr stack fs
    by (auto simp: s1)
qed

lemma vmt_inv_precompiled:
  assumes inv: "vmt_inv st m"
    and run: "vmt_on_precompiled_run st result gas = Inr st1"
  shows "vmt_inv st1 m"
proof -
  obtain started fs where m: "m = (started, fs)"
    by (cases m)
  let ?s = "vmt_store st"
  have frames: "list_all2 (frame_ok ?s) (vmt_traces_stack st) fs"
    and dist: "distinct (vmt_traces_stack st)"
    and bound: "\<forall>h \<in> set (vmt_traces_stack st). h < length ?s"
    and bottom: "vmt_traces_stack st \<noteq> [] \<longrightarrow> last (vmt_traces_stack st) = 0"
    and not_started: "\<not> started \<longrightarrow> fs = []"
    and lower: "\<forall>f \<in> set (tl fs). 0 < f_count f"
    and first: "\<forall>f \<in> set fs. f_count f = 1 \<longrightarrow> f_height f = 0"
    and subs: "subs_ok ?s"
    using inv m by (simp_all add: vmt_inv_def)
  obtain root0 where root0: "node ?s 0 = Some root0" and fresh_root: "\<not> started \<longrightarrow> vt_ops root0 = []"
    using inv m by (auto simp: vmt_inv_def)
  obtain root where h1: "vmt_traces_stack st1 = vmt_traces_stack st"
    and root: "node ?s 0 = Some root"
    and eff: "if vt_ops root = [] then vmt_store st1 = ?s
              else \<exists>op1. op_code op1 = op_code (last (vt_ops root))
                     \<and> op_sub op1 = Some (length ?s)
                     \<and> vmt_store st1 =
                         release (op_sub (last (vt_ops root)))
                           (?s[0 := Some (root\<lparr>vt_ops := butlast (vt_ops root) @ [op1]\<rparr>)])
                         @ [Some \<lparr>vt_code = ''0x'', vt_ops = []\<rparr>]"
    using vmt_precompiled [OF run] by blast
  have same: "root0 = root"
    using root root0 by simp
  show ?thesis
  proof (cases "vt_ops root = []")
    case True
    then have "vmt_store st1 = ?s"
      using eff by simp
    then show ?thesis
      using inv h1 by (simp add: vmt_inv_def)
  next
    case False
    then obtain op1 where code1: "op_code op1 = op_code (last (vt_ops root))"
      and sub1: "op_sub op1 = Some (length ?s)"
      and s1: "vmt_store st1 =
                 release (op_sub (last (vt_ops root)))
                   (?s[0 := Some (root\<lparr>vt_ops := butlast (vt_ops root) @ [op1]\<rparr>)])
                 @ [Some \<lparr>vt_code = ''0x'', vt_ops = []\<rparr>]"
      using eff by auto
    let ?root1 = "root\<lparr>vt_ops := butlast (vt_ops root) @ [op1]\<rparr>"
    let ?p = "op_sub (last (vt_ops root))"
    let ?mid = "release ?p (?s[0 := Some ?root1])"
    have pos: "0 < length ?s"
      using root by (auto dest: node_Some_length)
    have started: started
      using fresh_root same False by auto
    have old: "node (vmt_store st1) i = node ?mid i" if "i < length ?s" for i
      using that by (simp add: s1 node_append_left length_release)
    have p_ne: "?p \<noteq> Some 0"
      using subs root False by (auto simp: subs_ok_def)
    have root1: "node (vmt_store st1) 0 = Some ?root1"
      using stepped_root [OF p_ne pos, of "Some ?root1"] old [OF pos] by simp
    have len1: "length (vt_ops ?root1) = length (vt_ops root)"
      using False by simp
    have f: "list_all2 (frame_ok (vmt_store st1)) (vmt_traces_stack st) fs"
    proof (rule frames_mono [OF frames])
      fix h f assume mem: "h \<in> set (vmt_traces_stack st)" and ok: "frame_ok ?s h f"
      have h: "h < length ?s"
        using bound mem by simp
      show "frame_ok (vmt_store st1) h f"
      proof (cases "h = 0")
        case True
        then show ?thesis
          using ok root root1 code1 False len1 by (auto simp: frame_ok_def)
      next
        case False
        then show ?thesis
          using ok stepped_other [of h 0 ?p ?s "Some ?root1"] old [OF h]
          by (auto intro: frame_ok_kept)
      qed
    qed
    have sb: "subs_ok (vmt_store st1)"
    proof (rule subs_ok_step [OF subs])
      fix i v assume iv: "node (vmt_store st1) i = Some v"
      show "node ?s i = Some v \<or> (\<forall>op \<in> set (vt_ops v). op_sub op \<noteq> Some 0)"
      proof (cases "i < length ?s")
        case True
        then have "node ?mid i = Some v"
          using iv old by simp
        then have "(i = 0 \<and> Some ?root1 = Some v) \<or> node ?s i = Some v"
          by (rule stepped_any)
        moreover have "\<forall>op \<in> set (vt_ops ?root1). op_sub op \<noteq> Some 0"
          using subs root sub1 pos by (auto simp: subs_ok_def dest: in_set_butlastD)
        ultimately show ?thesis by auto
      next
        case False
        then have "v = \<lparr>vt_code = ''0x'', vt_ops = []\<rparr>"
          using iv by (auto simp: s1 node_append length_release split: if_splits)
        then show ?thesis by simp
      qed
    qed
    have b: "\<forall>h \<in> set (vmt_traces_stack st). h < length (vmt_store st1)"
      using bound by (auto simp: s1 length_release)
    show ?thesis
      unfolding vmt_inv_def m h1
      using f dist b bottom root1 sb started lower first
      by simp
  qed
qed

lemma vmt_inv_exec_end:
  assumes inv: "vmt_inv st m"
    and step: "evm_step m (ExecEnd result) = Some m1"
    and run: "vmt_on_execution_end st result = Inr st1"
  shows "vmt_inv st1 m1"
proof -
  obtain started fs where m: "m = (started, fs)"
    by (cases m)
  let ?s = "vmt_store st"
  obtain f fs1 where fs: "fs = f # fs1" and m1: "m1 = (started, fs1)"
    using step m by (cases fs) auto
  have frames: "list_all2 (frame_ok ?s) (vmt_traces_stack st) fs"
    and dist: "distinct (vmt_traces_stack st)"
    and bound: "\<forall>h \<in> set (vmt_traces_stack st). h < length ?s"
    and bottom: "vmt_traces_stack st \<noteq> [] \<longrightarrow> last (vmt_traces_stack st) = 0"
    and not_started: "\<not> started \<longrightarrow> fs = []"
    and lower: "\<forall>f \<in> set (tl fs). 0 < f_count f"
    and first: "\<forall>f \<in> set fs. f_count f = 1 \<longrightarrow> f_height f = 0"
    and subs: "subs_ok ?s"
    using inv m by (simp_all add: vmt_inv_def)
  obtain root where root: "node ?s 0 = Some root"
    using inv m by (auto simp: vmt_inv_def)
  obtain h hs vm_trace v1 p where
    stack: "vmt_traces_stack st = h # hs"
    and vm: "node ?s h = Some vm_trace"
    and v1_subs: "\<forall>op \<in> set (vt_ops v1). \<exists>op0 \<in> set (vt_ops vm_trace). op_sub op = op_sub op0"
    and p: "p = None \<or> (\<exists>op0 \<in> set (vt_ops vm_trace). p = op_sub op0)"
    and s1: "vmt_store st1 = release p (?s[h := Some v1])"
    and h1: "vmt_traces_stack st1 = hs"
    using vmt_end [OF run] by blast
  have h_lt: "h < length ?s"
    using vm by (rule node_Some_length)
  have pos: "0 < length ?s"
    using root by (auto dest: node_Some_length)
  have p_ne: "p \<noteq> Some 0"
  proof (cases "p = None")
    case True
    then show ?thesis by simp
  next
    case False
    then obtain op0 where "op0 \<in> set (vt_ops vm_trace)" "p = op_sub op0"
      using p by blast
    moreover have "\<forall>op \<in> set (vt_ops vm_trace). op_sub op \<noteq> Some 0"
      using subs vm unfolding subs_ok_def by blast
    ultimately show ?thesis by auto
  qed
  have ok_hs: "list_all2 (frame_ok ?s) hs fs1"
    using frames stack fs by simp
  have f: "list_all2 (frame_ok (vmt_store st1)) hs fs1"
  proof (rule frames_kept [OF ok_hs])
    fix i assume "i \<in> set hs"
    then have "i \<noteq> h"
      using dist stack by auto
    then show "node (vmt_store st1) i = None \<or> node (vmt_store st1) i = node ?s i"
      unfolding s1 by (rule stepped_other)
  qed
  have r: "\<exists>root. node (vmt_store st1) 0 = Some root"
    using stepped_root [OF p_ne h_lt, of "Some v1"] root by (auto simp: s1)
  have sb: "subs_ok (vmt_store st1)"
  proof (rule subs_ok_step [OF subs])
    fix i v assume "node (vmt_store st1) i = Some v"
    then have "(i = h \<and> Some v1 = Some v) \<or> node ?s i = Some v"
      unfolding s1 by (rule stepped_any)
    moreover have "\<forall>op \<in> set (vt_ops v1). op_sub op \<noteq> Some 0"
      using subs vm v1_subs by (fastforce simp: subs_ok_def)
    ultimately show "node ?s i = Some v \<or> (\<forall>op \<in> set (vt_ops v). op_sub op \<noteq> Some 0)"
      by auto
  qed
  have started: started
    using not_started fs by auto
  have l: "hs \<noteq> [] \<longrightarrow> last hs = 0"
    using bottom stack by auto
  have lower1: "\<forall>f \<in> set (tl fs1). 0 < f_count f"
    using lower fs by (cases fs1) auto
  show ?thesis
    unfolding vmt_inv_def m1 h1
    using f dist bound stack l r sb started lower1 first fs
    by (auto simp: s1 length_release)
qed

lemma vmt_inv_step:
  assumes "vmt_inv st m" and "evm_step m ev = Some m1" and "vmt_step names_table st ev = Inr st1"
  shows "vmt_inv st1 m1"
proof (cases ev)
  case (ExecStart revision msg code)
  then show ?thesis
    using assms by (auto intro: vmt_inv_exec_start)
next
  case (InstrStart pc stack stack_height es)
  then show ?thesis
    using assms by (auto intro: vmt_inv_instruction)
next
  case (PrecompiledRun result gas)
  then have "m1 = m"
    using assms(2) by (cases m) simp
  then show ?thesis
    using assms PrecompiledRun by (auto intro: vmt_inv_precompiled)
next
  case (ExecEnd result)
  then show ?thesis
    using assms by (auto intro: vmt_inv_exec_end)
qed

lemma vmt_inv_run:
  assumes "vmt_inv st m" and "evm_steps m evs = Some m1" and "vmt_run names_table st evs = Inr st1"
  shows "vmt_inv st1 m1"
  using assms
proof (induction evs arbitrary: st m)
  case Nil
  then show ?case by simp
next
  case (Cons ev evs)
  obtain m2 where m2: "evm_step m ev = Some m2" "evm_steps m2 evs = Some m1"
    using Cons.prems(2) by (auto split: option.splits)
  obtain st2 where st2: "vmt_step names_table st ev = Inr st2" "vmt_run names_table st2 evs = Inr st1"
    using Cons.prems(3) by (auto split: sum.splits)
  have "vmt_inv st2 m2"
    using Cons.prems(1) m2(1) st2(1) by (rule vmt_inv_step)
  then show ?case
    using m2(2) st2(2) by (rule Cons.IH)
qed

lemma evm_steps_append:
  "evm_steps m (evs @ [ev]) = (case evm_steps m evs of None \<Rightarrow> None | Some m1 \<Rightarrow> evm_step m1 ev)"
  by (induction evs arbitrary: m) (auto split: option.splits)

lemma start_out_of_range:
  assumes "vmt_on_execution_start names_table st revision msg code = Inl OpsOutOfRange"
  shows "msg_depth msg \<noteq> 0
         \<and> (\<exists>h hs parent. vmt_traces_stack st = h # hs \<and> node (vmt_store st) h = Some parent
               \<and> (vt_ops parent = []
                   \<or> (is_call_op (op_code (last (vt_ops parent))) \<and> length (vt_ops parent) < 2)))"
proof -
  have d: "msg_depth msg \<noteq> 0"
    using assms
    by (auto simp: vmt_on_execution_start_def Let_def split: option.splits if_splits)
  obtain h hs where stack: "vmt_traces_stack st = h # hs"
    using assms d
    by (cases "vmt_traces_stack st")
       (auto simp: vmt_on_execution_start_def Let_def split: option.splits if_splits)
  obtain parent where parent: "node (vmt_store st) h = Some parent"
    using assms d stack
    by (cases "node (vmt_store st) h")
       (auto simp: vmt_on_execution_start_def Let_def split: option.splits if_splits list.splits)
  have "vt_ops parent = []
        \<or> (is_call_op (op_code (last (vt_ops parent))) \<and> length (vt_ops parent) < 2)"
  proof (rule ccontr)
    assume "\<not> ?thesis"
    then have ne: "vt_ops parent \<noteq> []"
      and two: "is_call_op (op_code (last (vt_ops parent))) \<longrightarrow> \<not> length (vt_ops parent) < 2"
      by auto
    have last_nth: "vt_ops parent ! (length (vt_ops parent) - Suc 0) = last (vt_ops parent)"
      using ne by (simp add: last_conv_nth)
    show False
      using assms d stack parent ne two last_nth
      by (cases "is_call_op (op_code (last (vt_ops parent)))")
         (auto simp: vmt_on_execution_start_def Let_def split: option.splits if_splits list.splits)
  qed
  then show ?thesis
    using d stack parent by blast
qed

text \<open>
  Claim C4. Take any sequence of callbacks an interpreter makes (one outermost frame,
  frames opened at the depth of the open frames, the first instruction of a frame on an
  empty stack, a nested frame opened by a call or create instruction that has its
  operands on the stack) and the state the tracer reaches on it. Then the execution
  start that follows never reads the ops of the parent out of range; and at depth above
  0, whenever the parent trace is not empty and its last op is \<open>CALL\<close>, \<open>STATICCALL\<close> or
  \<open>DELEGATECALL\<close>, the parent holds at least two ops, so the read at \<open>ops.size() - 2\<close>
  is within bounds.
\<close>

theorem call_site_has_two_ops:
  assumes "evm_shaped (evs @ [ExecStart revision msg code])"
    and "vmt_run names_table (vmt_init index) evs = Inr st"
  shows "vmt_on_execution_start names_table st revision msg code \<noteq> Inl OpsOutOfRange
         \<and> (\<forall>h hs parent.
              0 < msg_depth msg \<and> vmt_traces_stack st = h # hs
              \<and> node (vmt_store st) h = Some parent \<and> vt_ops parent \<noteq> []
              \<and> op_code (last (vt_ops parent)) \<in> {OP_CALL, OP_STATICCALL, OP_DELEGATECALL}
              \<longrightarrow> 2 \<le> length (vt_ops parent))"
proof -
  obtain m m1 where m: "evm_steps (False, []) evs = Some m"
    and step: "evm_step m (ExecStart revision msg code) = Some m1"
    using assms(1) by (auto simp: evm_shaped_def evm_steps_append split: option.splits)
  have inv: "vmt_inv st m"
    using vmt_inv_init m assms(2) by (rule vmt_inv_run)
  have depth: "0 \<le> msg_depth msg"
    using step by (cases m) (auto split: if_splits)
  have site: "vt_ops parent \<noteq> []
         \<and> (is_call_op (op_code (last (vt_ops parent))) \<longrightarrow> 2 \<le> length (vt_ops parent))"
    if "0 < msg_depth msg" "vmt_traces_stack st = h # hs" "node (vmt_store st) h = Some parent"
    for h hs parent
    using inv step that by (rule vmt_inv_call_site)
  have "vmt_on_execution_start names_table st revision msg code \<noteq> Inl OpsOutOfRange"
  proof
    assume "vmt_on_execution_start names_table st revision msg code = Inl OpsOutOfRange"
    then obtain h hs parent where "msg_depth msg \<noteq> 0" "vmt_traces_stack st = h # hs"
      "node (vmt_store st) h = Some parent"
      "vt_ops parent = []
       \<or> (is_call_op (op_code (last (vt_ops parent))) \<and> length (vt_ops parent) < 2)"
      using start_out_of_range by blast
    then show False
      using site [of h hs parent] depth by auto
  qed
  moreover have "2 \<le> length (vt_ops parent)"
    if "0 < msg_depth msg \<and> vmt_traces_stack st = h # hs
        \<and> node (vmt_store st) h = Some parent \<and> vt_ops parent \<noteq> []
        \<and> op_code (last (vt_ops parent)) \<in> {OP_CALL, OP_STATICCALL, OP_DELEGATECALL}"
    for h hs parent
    using site [of h hs parent] that by (auto simp: is_call_op_def)
  ultimately show ?thesis
    by blast
qed

lemma call_events_run:
  "\<exists>st parent. vmt_run call_names (vmt_init (- 1)) call_events = Inr st
     \<and> vmt_traces_stack st = [0] \<and> node (vmt_store st) 0 = Some parent
     \<and> map op_code (vt_ops parent) = [OP_PUSH1, OP_CALL]"
  by (simp add: call_events_def vmt_init_def call_msg_def caller_state_def
        vmt_on_execution_start_def vmt_on_instruction_start_def finalize_previous_op_def
        new_trace_op_def copy_memory_def copy_memory_offset_len_def copy_store_def
        node_def Let_def empty_VmTrace_def empty_TraceEx_def mk_TraceMemory_def)

lemma call_events_shaped: "evm_shaped (call_events @ [ExecStart 0 nested_msg []])"
  by (simp add: evm_shaped_def call_events_def call_msg_def nested_msg_def caller_state_def
        call_operands_def)

theorem call_site_has_two_ops_witness:
  "\<exists>st parent. vmt_run call_names (vmt_init (- 1)) call_events = Inr st
     \<and> node (vmt_store st) 0 = Some parent
     \<and> map op_code (vt_ops parent) = [OP_PUSH1, OP_CALL]
     \<and> 2 \<le> length (vt_ops parent)
     \<and> vmt_on_execution_start call_names st 0 nested_msg [] \<noteq> Inl OpsOutOfRange"
proof -
  obtain st parent where run: "vmt_run call_names (vmt_init (- 1)) call_events = Inr st"
    and stack: "vmt_traces_stack st = [0]" and parent: "node (vmt_store st) 0 = Some parent"
    and ops: "map op_code (vt_ops parent) = [OP_PUSH1, OP_CALL]"
    using call_events_run by (elim exE conjE)
  have ne: "vt_ops parent \<noteq> []" and last_op: "op_code (last (vt_ops parent)) = OP_CALL"
    using ops by (auto simp: last_map [symmetric] simp del: last_map)
  from call_site_has_two_ops [OF call_events_shaped run]
  have safe: "vmt_on_execution_start call_names st 0 nested_msg [] \<noteq> Inl OpsOutOfRange"
    and two: "0 < msg_depth nested_msg \<and> vmt_traces_stack st = [0]
              \<and> node (vmt_store st) 0 = Some parent \<and> vt_ops parent \<noteq> []
              \<and> op_code (last (vt_ops parent)) \<in> {OP_CALL, OP_STATICCALL, OP_DELEGATECALL}
              \<longrightarrow> 2 \<le> length (vt_ops parent)"
    by blast+
  have "2 \<le> length (vt_ops parent)"
    using two stack parent ne last_op by (simp add: nested_msg_def)
  then show ?thesis
    using run parent ops safe
    by (intro exI [where x = st] exI [where x = parent] conjI)
qed

subsection \<open>Materialising a memory window\<close>



lemma store_tracer_reached:
  "vmt_on_execution_start store_names (vmt_init (- 1)) 0 call_msg [OP_MSTORE8, OP_STOP]
     = Inr store_tracer"
proof -
  have "to_hex [OP_MSTORE8, OP_STOP] = ''5300''"
    by code_simp
  then show ?thesis
    by (simp add: vmt_on_execution_start_def vmt_init_def call_msg_def store_tracer_def
          empty_VmTrace_def node_def Let_def)
qed



subsection \<open>The call tracer\<close>

text \<open>
  Claim C10. For a frame that is not a create and is entered with kind
  \<open>DELEGATECALL\<close>, the new trace is of type \<open>call\<close> and its action has call type
  \<open>delegatecall\<close>, \<open>to\<close> the code address of the message and \<open>from\<close> its recipient.
  The start returns whenever the open indices are indices of the list.
\<close>

theorem delegatecall_action:
  assumes "msg_kind msg = EVMC_DELEGATECALL" and "\<not> is_create initial_exists st msg"
    and "\<forall>p \<in> set (tt_index_stack st). p \<le> length (tt_traces st)"
  shows "\<exists>st1 act. tt_on_execution_start initial_exists st msg code = Inr st1
           \<and> length (tt_traces st1) = length (tt_traces st) + 1
           \<and> trace_type (tt_traces st1 ! length (tt_traces st)) = ''call''
           \<and> trace_action (tt_traces st1 ! length (tt_traces st)) = Call_Action act
           \<and> ta_call_type act = Some ''delegatecall''
           \<and> ta_to act = Some (msg_code_address msg)
           \<and> ta_from act = msg_recipient msg"
proof -
  let ?n = "length (tt_traces st)"
  let ?act = "empty_TraceAction\<lparr>ta_from := msg_sender msg, ta_gas := msg_gas msg,
                 ta_value := msg_value msg, ta_input := Some (msg_input msg),
                 ta_to := Some (msg_recipient msg),
                 ta_call_type := Some ''delegatecall'', ta_to := Some (msg_code_address msg),
                 ta_from := msg_recipient msg\<rparr>"
  have nt: "new_trace False msg code =
              empty_Trace\<lparr>trace_type := ''call'', trace_action := Call_Action ?act,
                           trace_result := Some (empty_TraceResult\<lparr>tr_output := Some []\<rparr>)\<rparr>"
    using assms(1) by (simp add: new_trace_def call_type_of_def Let_def)
  have action_kept: "trace_action (t\<lparr>trace_trace_address := a\<rparr>) = trace_action t"
    "trace_type (t\<lparr>trace_trace_address := a\<rparr>) = trace_type t"
    "trace_action (t\<lparr>trace_sub_traces := k\<rparr>) = trace_action t"
    "trace_type (t\<lparr>trace_sub_traces := k\<rparr>) = trace_type t" for t :: Trace and a k
    by simp_all
  show ?thesis
  proof (cases "msg_depth msg > 0 \<and> tt_index_stack st \<noteq> []")
    case True
    then obtain p ps where stack: "tt_index_stack st = p # ps"
      by (cases "tt_index_stack st") auto
    then have p_le: "p \<le> ?n"
      using assms(3) by simp
    show ?thesis
      using True stack p_le assms(2) nt
      by (cases "p = ?n")
         (auto simp add: tt_on_execution_start_def Let_def nth_append nth_list_update)
  next
    case False
    then show ?thesis
      using assms(2) nt
      by (auto simp add: tt_on_execution_start_def Let_def nth_append split: list.splits)
  qed
qed

theorem delegatecall_action_witness:
  "\<exists>st1 act. tt_on_execution_start (\<lambda>a. True) open_tracer delegate_msg [] = Inr st1
     \<and> trace_action (tt_traces st1 ! 1) = Call_Action act
     \<and> ta_call_type act = Some ''delegatecall'' \<and> ta_to act = Some 0xcc \<and> ta_from act = 0xbb"
  using delegatecall_action [of delegate_msg "\<lambda>a. True" open_tracer "[]"]
  by (auto simp add: delegate_msg_def open_tracer_def is_create_def)

lemma extends_by_one_iff: "extends_by_one a b \<longleftrightarrow> (\<exists>k. b = a @ [k])"
  by (auto simp: extends_by_one_def intro: append_butlast_last_id [symmetric])

lemma later_children_map:
  "i < length ts \<Longrightarrow>
   later_children ts i =
     length (filter (\<lambda>j. extends_by_one (map trace_trace_address ts ! i) (map trace_trace_address ts ! j))
               [Suc i..<length (map trace_trace_address ts)])"
  unfolding later_children_def
  by (rule arg_cong [where f = length], rule filter_cong) auto

lemma addr_inv_root: "addr_inv [[]] [0]"
  by (simp add: addr_inv_def)

lemma addr_inv_extend:
  assumes inv: "addr_inv as ss" and p: "p < length as"
  shows "addr_inv (as @ [as ! p @ [ss ! p]]) (ss[p := Suc (ss ! p)] @ [0])"
proof -
  let ?n = "length as"
  let ?new = "as ! p @ [ss ! p]"
  let ?as = "as @ [?new]"
  let ?ss = "ss[p := Suc (ss ! p)] @ [0]"
  have len: "length ss = ?n" and dist: "distinct as"
    and bound: "\<And>i j k. i < ?n \<Longrightarrow> j < ?n \<Longrightarrow> as ! j = as ! i @ [k] \<Longrightarrow> k < ss ! i"
    and parent: "\<And>j. j < ?n \<Longrightarrow> as ! j \<noteq> [] \<Longrightarrow> butlast (as ! j) \<in> set as"
    and count: "\<And>i. i < ?n \<Longrightarrow> ss ! i =
           length (filter (\<lambda>j. extends_by_one (as ! i) (as ! j)) [Suc i..<?n])"
    using inv by (auto simp: addr_inv_def)
  have fresh: "?new \<notin> set as"
  proof
    assume "?new \<in> set as"
    then obtain j where "j < ?n" "as ! j = ?new"
      by (auto simp: in_set_conv_nth)
    then have "ss ! p < ss ! p"
      using bound [of p j "ss ! p"] p by simp
    then show False by simp
  qed
  have same: "as ! i = as ! p \<longleftrightarrow> i = p" if "i < ?n" for i
    using dist that p by (auto simp: nth_eq_iff_index_eq)
  have ss_old: "?ss ! i = (if i = p then Suc (ss ! p) else ss ! i)" if "i < ?n" for i
    using that len by (simp add: nth_append nth_list_update)
  have c1: "length ?ss = length ?as"
    using len by simp
  have c2: "distinct ?as"
    using dist fresh by simp
  have c3: "k < ?ss ! i" if "i < length ?as" "j < length ?as" "?as ! j = ?as ! i @ [k]" for i j k
  proof (cases "i < ?n")
    case i: True
    show ?thesis
    proof (cases "j < ?n")
      case True
      then have "k < ss ! i"
        using bound [of i j k] i that(3) by (simp add: nth_append)
      then show ?thesis
        using ss_old [OF i] by auto
    next
      case False
      then have "j = ?n" using that(2) by simp
      then have "?new = as ! i @ [k]"
        using that(3) i by (simp add: nth_append)
      then have "as ! i = as ! p" and "k = ss ! p" by simp_all
      then show ?thesis
        using same [OF i] ss_old [OF i] by simp
    qed
  next
    case False
    then have i: "i = ?n" using that(1) by simp
    show ?thesis
    proof (cases "j < ?n")
      case True
      then have eq: "as ! j = ?new @ [k]"
        using that(3) i by (simp add: nth_append)
      have "butlast (as ! j) = ?new"
        unfolding eq by (rule butlast_snoc)
      moreover have "butlast (as ! j) \<in> set as"
        using parent [OF True] eq by simp
      ultimately show ?thesis
        using fresh by simp
    next
      case False
      then have "j = ?n" using that(2) by simp
      then show ?thesis
        using that(3) i by simp
    qed
  qed
  have c4: "butlast (?as ! j) \<in> set ?as" if "j < length ?as" "?as ! j \<noteq> []" for j
  proof (cases "j < ?n")
    case True
    then show ?thesis
      using parent [of j] that(2) by (simp add: nth_append)
  next
    case False
    then have "j = ?n" using that(1) by simp
    then show ?thesis
      using p by simp
  qed
  have c5: "?ss ! i = length (filter (\<lambda>j. extends_by_one (?as ! i) (?as ! j)) [Suc i..<length ?as])"
    if "i < length ?as" for i
  proof (cases "i < ?n")
    case i: True
    let ?P = "\<lambda>j. extends_by_one (?as ! i) (?as ! j)"
    have upt: "[Suc i..<length ?as] = [Suc i..<?n] @ [?n]"
      using i by simp
    have old: "filter ?P [Suc i..<?n]
               = filter (\<lambda>j. extends_by_one (as ! i) (as ! j)) [Suc i..<?n]"
      using i by (intro filter_cong) (auto simp: nth_append)
    have new: "?P ?n \<longleftrightarrow> i = p"
      using i same [OF i] by (auto simp add: nth_append extends_by_one_def)
    have "length (filter ?P [Suc i..<length ?as])
            = length (filter ?P [Suc i..<?n]) + (if ?P ?n then 1 else 0)"
      unfolding upt by simp
    also have "\<dots> = ss ! i + (if i = p then 1 else 0)"
      unfolding old new using count [OF i] by simp
    also have "\<dots> = ?ss ! i"
      using ss_old [OF i] by simp
    finally show ?thesis by simp
  next
    case False
    then have "i = ?n" using that by simp
    then show ?thesis
      using len by (simp add: nth_append)
  qed
  show ?thesis
    unfolding addr_inv_def
    using c1 c2 c3 c4 c5 by blast
qed

lemma new_trace_fields:
  "trace_trace_address (new_trace create msg code) = []"
  "trace_sub_traces (new_trace create msg code) = 0"
  "trace_error (new_trace create msg code) = None"
  "trace_result (new_trace create msg code) \<noteq> None"
  "\<exists>r. trace_result (new_trace create msg code) = Some r"
  by (simp_all add: new_trace_def empty_Trace_def Let_def)

lemma map_update_same: "f x = f (xs ! i) \<Longrightarrow> map f (xs[i := x]) = map f xs"
  by (cases "i < length xs") (simp_all add: map_update list_update_same_conv list_update_beyond)

lemma start_root:
  assumes "tt_index_stack st = []" and "msg_depth msg = 0"
  shows "tt_on_execution_start initial_exists st msg code =
           Inr (st\<lparr>tt_current_depth := 0,
                   tt_start_gas := msg_gas msg # tt_start_gas st,
                   tt_created_address :=
                     (if is_create initial_exists st msg
                      then insert (msg_recipient msg) (tt_created_address st)
                      else tt_created_address st),
                   tt_traces := tt_traces st @ [new_trace (is_create initial_exists st msg) msg code],
                   tt_initial_gas := msg_gas msg,
                   tt_index_stack := [length (tt_traces st)]\<rparr>)"
  using assms by (simp add: tt_on_execution_start_def Let_def)

lemma start_nested:
  assumes "tt_index_stack st = p # ps" and "msg_depth msg > 0" and "p < length (tt_traces st)"
  shows "tt_on_execution_start initial_exists st msg code =
           Inr (st\<lparr>tt_current_depth := msg_depth msg,
                   tt_start_gas := msg_gas msg # tt_start_gas st,
                   tt_created_address :=
                     (if is_create initial_exists st msg
                      then insert (msg_recipient msg) (tt_created_address st)
                      else tt_created_address st),
                   tt_traces :=
                     (tt_traces st)[p := (tt_traces st ! p)
                        \<lparr>trace_sub_traces := trace_sub_traces (tt_traces st ! p) + 1\<rparr>]
                     @ [(new_trace (is_create initial_exists st msg) msg code)
                          \<lparr>trace_trace_address := trace_trace_address (tt_traces st ! p)
                                                    @ [trace_sub_traces (tt_traces st ! p)]\<rparr>],
                   tt_index_stack := length (tt_traces st) # p # ps\<rparr>)"
  using assms
  by (simp add: tt_on_execution_start_def Let_def nth_append list_update_append)

lemma tt_inv_initial:
  assumes "tt_traces st = []" "tt_index_stack st = []" "tt_start_gas st = []"
  shows "tt_inv st"
  using assms by (simp add: tt_inv_def open_inv_def addr_inv_def)

lemma tt_inv_start:
  assumes inv: "tt_inv st" and depth: "msg_depth msg = int (length (tt_index_stack st))"
    and first: "tt_index_stack st = [] \<longrightarrow> tt_traces st = []"
    and start: "tt_on_execution_start initial_exists st msg code = Inr st1"
  shows "tt_inv st1"
proof (cases "tt_index_stack st")
  case Nil
  then have d0: "msg_depth msg = 0" and empty: "tt_traces st = []"
    using depth first by simp_all
  have gas: "tt_start_gas st = []"
    using inv Nil by (simp add: tt_inv_def open_inv_def)
  show ?thesis
    using start start_root [OF Nil d0, of initial_exists code] empty gas
    by (auto simp: tt_inv_def open_inv_def new_trace_fields addr_inv_root)
next
  case (Cons p ps)
  let ?ts = "tt_traces st"
  let ?n = "length ?ts"
  have pos: "msg_depth msg > 0"
    using depth Cons by simp
  have open_: "open_inv st" and addr: "addr_inv (map trace_trace_address ?ts) (map trace_sub_traces ?ts)"
    using inv by (simp_all add: tt_inv_def)
  have p_lt: "p < ?n"
    using open_ Cons by (simp add: open_inv_def)
  let ?nt = "(new_trace (is_create initial_exists st msg) msg code)
               \<lparr>trace_trace_address := trace_trace_address (?ts ! p) @ [trace_sub_traces (?ts ! p)]\<rparr>"
  let ?ts1 = "?ts[p := (?ts ! p)\<lparr>trace_sub_traces := trace_sub_traces (?ts ! p) + 1\<rparr>] @ [?nt]"
  have st1: "tt_traces st1 = ?ts1" "tt_index_stack st1 = ?n # p # ps"
    "tt_start_gas st1 = msg_gas msg # tt_start_gas st"
    using start start_nested [OF Cons pos p_lt, of initial_exists code] by auto
  have addrs: "map trace_trace_address ?ts1 =
                 map trace_trace_address ?ts
                 @ [map trace_trace_address ?ts ! p @ [map trace_sub_traces ?ts ! p]]"
    using p_lt by (simp add: map_update new_trace_fields list_update_same_conv)
  have subs: "map trace_sub_traces ?ts1 =
                (map trace_sub_traces ?ts)[p := Suc (map trace_sub_traces ?ts ! p)] @ [0]"
    using p_lt by (simp add: map_update new_trace_fields)
  have a: "addr_inv (map trace_trace_address ?ts1) (map trace_sub_traces ?ts1)"
    unfolding addrs subs using addr p_lt by (intro addr_inv_extend) simp_all
  have old: "i < length ?ts1 \<and> trace_error (?ts1 ! i) = None \<and> trace_result (?ts1 ! i) \<noteq> None"
    if "i \<in> set (p # ps)" for i
  proof -
    have i: "i < ?n" "trace_error (?ts ! i) = None" "trace_result (?ts ! i) \<noteq> None"
      using open_ Cons that by (auto simp: open_inv_def)
    then show ?thesis
      by (cases "i = p") (simp_all add: nth_append nth_list_update)
  qed
  have new: "?n < length ?ts1 \<and> trace_error (?ts1 ! ?n) = None \<and> trace_result (?ts1 ! ?n) \<noteq> None"
    by (simp add: nth_append new_trace_fields)
  have fresh: "?n \<notin> set (p # ps)"
    using open_ Cons by (auto simp: open_inv_def)
  have b: "open_inv st1"
    unfolding open_inv_def st1
    using open_ Cons fresh old new by (auto simp: open_inv_def)
  show ?thesis
    using a b st1 by (simp add: tt_inv_def)
qed

lemma tt_inv_end:
  assumes inv: "tt_inv st" and fin: "tt_on_execution_end st result = Inr st1"
  shows "tt_inv st1"
proof -
  obtain index rest start_gas gs trace2 where
    stack: "tt_index_stack st = index # rest" and gas: "tt_start_gas st = start_gas # gs"
    and lt: "index < length (tt_traces st)"
    and st1: "st1 = st\<lparr>tt_index_stack := rest, tt_start_gas := gs,
                        tt_current_depth := tt_current_depth st - 1,
                        tt_traces := (tt_traces st)[index := trace2]\<rparr>"
    and same: "trace_trace_address trace2 = trace_trace_address (tt_traces st ! index)"
      "trace_sub_traces trace2 = trace_sub_traces (tt_traces st ! index)"
    using fin
    by (auto simp: tt_on_execution_end_def Let_def
             split: list.splits if_splits sum.splits option.splits evmc_status_code.splits)
  have maps: "map trace_trace_address ((tt_traces st)[index := trace2]) = map trace_trace_address (tt_traces st)"
    "map trace_sub_traces ((tt_traces st)[index := trace2]) = map trace_sub_traces (tt_traces st)"
    using same by (simp_all add: map_update_same)
  have "open_inv st1"
    using inv stack gas unfolding st1 tt_inv_def open_inv_def by (auto simp: nth_list_update)
  then show ?thesis
    using inv maps by (simp add: tt_inv_def st1)
qed

lemma tt_inv_reward:
  assumes inv: "tt_inv st" and empty: "tt_index_stack st = []"
    and rew: "tt_on_reward_granted st call_result = Inr st1"
  shows "tt_inv st1"
proof (cases "tt_traces st = []")
  case True
  then show ?thesis
    using inv rew by (simp add: tt_on_reward_granted_def)
next
  case False
  then obtain trace1 where
    st1: "st1 = st\<lparr>tt_traces := (tt_traces st)[0 := trace1]\<rparr>"
    and same: "trace_trace_address trace1 = trace_trace_address (tt_traces st ! 0)"
      "trace_sub_traces trace1 = trace_sub_traces (tt_traces st ! 0)"
    using rew
    by (auto simp: tt_on_reward_granted_def Let_def
             split: if_splits sum.splits option.splits evmc_status_code.splits)
  have maps: "map trace_trace_address ((tt_traces st)[0 := trace1]) = map trace_trace_address (tt_traces st)"
    "map trace_sub_traces ((tt_traces st)[0 := trace1]) = map trace_sub_traces (tt_traces st)"
    using same by (simp_all add: map_update_same)
  show ?thesis
    using inv empty maps by (simp add: tt_inv_def st1 open_inv_def)
qed

lemma tt_reachable_inv: "tt_reachable initial_exists st \<Longrightarrow> tt_inv st"
proof (induction rule: tt_reachable.induct)
  case (tt_initial st)
  then show ?case by (simp add: tt_inv_initial)
next
  case (tt_start st msg code st1)
  then show ?case by (blast intro: tt_inv_start)
next
  case (tt_instruction st)
  then show ?case by (simp add: tt_on_instruction_start_def)
next
  case (tt_end st result st1)
  then show ?case by (blast intro: tt_inv_end)
next
  case (tt_reward st call_result st1)
  then show ?case by (blast intro: tt_inv_reward)
qed

lemma open_tracer_reachable: "tt_reachable (\<lambda>a. True) open_tracer"
proof -
  have r: "tt_reachable (\<lambda>a. True) fresh_tracer"
    by (rule tt_initial) (simp_all add: fresh_tracer_def)
  have s: "tt_on_execution_start (\<lambda>a. True) fresh_tracer call_msg [] = Inr open_tracer"
    by (simp add: tt_on_execution_start_def fresh_tracer_def open_tracer_def call_msg_def
                  is_create_def parent_trace_def Let_def)
  show ?thesis
    by (rule tt_start [OF r _ _ s]) (simp_all add: fresh_tracer_def call_msg_def)
qed

lemma child_open_tracer_reachable: "tt_reachable (\<lambda>a. True) child_open_tracer"
proof -
  have s: "tt_on_execution_start (\<lambda>a. True) open_tracer delegate_msg [] = Inr child_open_tracer"
    by (simp add: tt_on_execution_start_def open_tracer_def child_open_tracer_def delegate_msg_def
                  is_create_def Let_def parent_trace_def new_trace_fields)
  show ?thesis
    by (rule tt_start [OF open_tracer_reachable _ _ s]) (simp_all add: open_tracer_def delegate_msg_def)
qed

text \<open>
  Claim C6. In every state the call tracer reaches, with a frame open,
  \<open>on_execution_end\<close> returns and maps the status of the result to the error and the
  result of the frame that ends: \<open>SUCCESS\<close> keeps the result (with the output copied
  when the depth is above 0) with \<open>gas_used = start_gas - gas_left\<close> and no error;
  \<open>REVERT\<close> gives the error \<open>Reverted\<close>; \<open>OUT_OF_GAS\<close> and \<open>STACK_OVERFLOW\<close> give
  \<open>Out of gas\<close>; \<open>UNDEFINED_INSTRUCTION\<close> and \<open>INVALID_INSTRUCTION\<close> give
  \<open>Bad instruction\<close>; \<open>STACK_UNDERFLOW\<close> gives \<open>Stack underflow\<close>;
  \<open>BAD_JUMP_DESTINATION\<close> gives \<open>Bad jump destination\<close>; every other status gives the
  empty error text; and whenever the status is not \<open>SUCCESS\<close> the result is absent.
\<close>

theorem execution_end_status:
  assumes "tt_reachable initial_exists st" and "tt_index_stack st = index # rest"
  shows "\<exists>st1 start_gas gs r.
           tt_on_execution_end st result = Inr st1
           \<and> tt_start_gas st = start_gas # gs
           \<and> index < length (tt_traces st)
           \<and> trace_result (tt_traces st ! index) = Some r
           \<and> (let t = tt_traces st1 ! index;
                   status = res_status_code result;
                   r1 = (if tt_current_depth st > 0 then set_code_or_output (res_output result) r else r)
               in (status = EVMC_SUCCESS \<longrightarrow>
                     trace_error t = None
                     \<and> trace_result t = Some (r1\<lparr>tr_gas_used := start_gas - res_gas_left result\<rparr>))
                \<and> (status = EVMC_REVERT \<longrightarrow>
                     trace_error t = Some ''Reverted'' \<and> trace_result t = None)
                \<and> (status = EVMC_OUT_OF_GAS \<or> status = EVMC_STACK_OVERFLOW \<longrightarrow>
                     trace_error t = Some ''Out of gas'' \<and> trace_result t = None)
                \<and> (status = EVMC_UNDEFINED_INSTRUCTION \<or> status = EVMC_INVALID_INSTRUCTION \<longrightarrow>
                     trace_error t = Some ''Bad instruction'' \<and> trace_result t = None)
                \<and> (status = EVMC_STACK_UNDERFLOW \<longrightarrow>
                     trace_error t = Some ''Stack underflow'' \<and> trace_result t = None)
                \<and> (status = EVMC_BAD_JUMP_DESTINATION \<longrightarrow>
                     trace_error t = Some ''Bad jump destination'' \<and> trace_result t = None)
                \<and> (status \<notin> {EVMC_SUCCESS, EVMC_REVERT, EVMC_OUT_OF_GAS, EVMC_STACK_OVERFLOW,
                                EVMC_UNDEFINED_INSTRUCTION, EVMC_INVALID_INSTRUCTION,
                                EVMC_STACK_UNDERFLOW, EVMC_BAD_JUMP_DESTINATION} \<longrightarrow>
                     trace_error t = Some [] \<and> trace_result t = None))"
proof -
  have inv: "open_inv st"
    using assms(1) by (auto dest: tt_reachable_inv simp: tt_inv_def)
  obtain start_gas gs where gas: "tt_start_gas st = start_gas # gs"
    using inv assms(2) by (cases "tt_start_gas st") (auto simp: open_inv_def)
  have lt: "index < length (tt_traces st)" and no_error: "trace_error (tt_traces st ! index) = None"
    using inv assms(2) by (auto simp: open_inv_def)
  obtain r where r: "trace_result (tt_traces st ! index) = Some r"
    using inv assms(2) by (auto simp: open_inv_def)
  let ?r1 = "if tt_current_depth st > 0 then set_code_or_output (res_output result) r else r"
  let ?trace1 = "if tt_current_depth st > 0
                 then (tt_traces st ! index)\<lparr>trace_result := Some (set_code_or_output (res_output result) r)\<rparr>
                 else tt_traces st ! index"
  let ?trace2 = "case res_status_code result of
                   EVMC_SUCCESS \<Rightarrow> ?trace1\<lparr>trace_result := Some (?r1\<lparr>tr_gas_used := start_gas - res_gas_left result\<rparr>)\<rparr>
                 | status \<Rightarrow> ?trace1\<lparr>trace_error := Some (error_of_status status), trace_result := None\<rparr>"
  have fin: "tt_on_execution_end st result =
               Inr (st\<lparr>tt_index_stack := rest, tt_start_gas := gs,
                       tt_current_depth := tt_current_depth st - 1,
                       tt_traces := (tt_traces st)[index := ?trace2]\<rparr>)"
    using assms(2) gas lt r
    by (cases "res_status_code result") (simp_all add: tt_on_execution_end_def Let_def)
  have t: "tt_traces (st\<lparr>tt_index_stack := rest, tt_start_gas := gs,
                       tt_current_depth := tt_current_depth st - 1,
                       tt_traces := (tt_traces st)[index := ?trace2]\<rparr>) ! index = ?trace2"
    using lt by simp
  have "(let t = ?trace2;
             status = res_status_code result;
             r1 = ?r1
         in (status = EVMC_SUCCESS \<longrightarrow>
               trace_error t = None
               \<and> trace_result t = Some (r1\<lparr>tr_gas_used := start_gas - res_gas_left result\<rparr>))
          \<and> (status = EVMC_REVERT \<longrightarrow>
               trace_error t = Some ''Reverted'' \<and> trace_result t = None)
          \<and> (status = EVMC_OUT_OF_GAS \<or> status = EVMC_STACK_OVERFLOW \<longrightarrow>
               trace_error t = Some ''Out of gas'' \<and> trace_result t = None)
          \<and> (status = EVMC_UNDEFINED_INSTRUCTION \<or> status = EVMC_INVALID_INSTRUCTION \<longrightarrow>
               trace_error t = Some ''Bad instruction'' \<and> trace_result t = None)
          \<and> (status = EVMC_STACK_UNDERFLOW \<longrightarrow>
               trace_error t = Some ''Stack underflow'' \<and> trace_result t = None)
          \<and> (status = EVMC_BAD_JUMP_DESTINATION \<longrightarrow>
               trace_error t = Some ''Bad jump destination'' \<and> trace_result t = None)
          \<and> (status \<notin> {EVMC_SUCCESS, EVMC_REVERT, EVMC_OUT_OF_GAS, EVMC_STACK_OVERFLOW,
                          EVMC_UNDEFINED_INSTRUCTION, EVMC_INVALID_INSTRUCTION,
                          EVMC_STACK_UNDERFLOW, EVMC_BAD_JUMP_DESTINATION} \<longrightarrow>
               trace_error t = Some [] \<and> trace_result t = None))"
    using no_error
    by (cases "res_status_code result") (simp_all add: error_of_status_def)
  then show ?thesis
    using fin gas lt r t by (simp add: Let_def)
qed

theorem execution_end_status_witness:
  "\<exists>st1. tt_on_execution_end child_open_tracer revert_result = Inr st1
     \<and> trace_error (tt_traces st1 ! 1) = Some ''Reverted''
     \<and> trace_result (tt_traces st1 ! 1) = None"
  using execution_end_status [OF child_open_tracer_reachable, of 1 "[0]" revert_result]
  by (auto simp: child_open_tracer_def revert_result_def Let_def)

text \<open>
  Claim C7. In every state the call tracer reaches: for every trace of the list,
  \<open>sub_traces\<close> is the number of traces emitted later whose address is the address of
  this trace extended by one element; and an execution start at depth above 0 with an
  open frame returns, gives the new frame the address of the open parent extended by
  the parent's \<open>sub_traces\<close>, and increments the parent's \<open>sub_traces\<close> by one.
\<close>

theorem trace_address_and_sub_traces:
  assumes "tt_reachable initial_exists st"
  shows "(\<forall>i < length (tt_traces st).
            trace_sub_traces (tt_traces st ! i) = later_children (tt_traces st) i)
       \<and> (\<forall>(msg :: evmc_message) code p ps.
            msg_depth msg > 0 \<and> tt_index_stack st = p # ps \<longrightarrow>
            (\<exists>st1. tt_on_execution_start initial_exists st msg code = Inr st1
               \<and> tt_index_stack st1 = length (tt_traces st) # p # ps
               \<and> trace_trace_address (tt_traces st1 ! length (tt_traces st))
                   = trace_trace_address (tt_traces st ! p) @ [trace_sub_traces (tt_traces st ! p)]
               \<and> trace_sub_traces (tt_traces st1 ! p) = trace_sub_traces (tt_traces st ! p) + 1))"
proof (intro conjI allI impI)
  fix i assume i: "i < length (tt_traces st)"
  have "addr_inv (map trace_trace_address (tt_traces st)) (map trace_sub_traces (tt_traces st))"
    using assms by (auto dest: tt_reachable_inv simp: tt_inv_def)
  then have "map trace_sub_traces (tt_traces st) ! i =
               length (filter (\<lambda>j. extends_by_one (map trace_trace_address (tt_traces st) ! i)
                                      (map trace_trace_address (tt_traces st) ! j))
                         [Suc i..<length (map trace_trace_address (tt_traces st))])"
    using i unfolding addr_inv_def by simp
  then show "trace_sub_traces (tt_traces st ! i) = later_children (tt_traces st) i"
    using i by (simp add: later_children_map)
next
  fix msg :: evmc_message and code p ps
  assume a: "msg_depth msg > 0 \<and> tt_index_stack st = p # ps"
  have "open_inv st"
    using assms by (auto dest: tt_reachable_inv simp: tt_inv_def)
  then have p_lt: "p < length (tt_traces st)"
    using a by (simp add: open_inv_def)
  show "\<exists>st1. tt_on_execution_start initial_exists st msg code = Inr st1
               \<and> tt_index_stack st1 = length (tt_traces st) # p # ps
               \<and> trace_trace_address (tt_traces st1 ! length (tt_traces st))
                   = trace_trace_address (tt_traces st ! p) @ [trace_sub_traces (tt_traces st ! p)]
               \<and> trace_sub_traces (tt_traces st1 ! p) = trace_sub_traces (tt_traces st ! p) + 1"
    using start_nested [of st p ps msg initial_exists code] a p_lt
    by (simp add: nth_append)
qed

theorem trace_address_and_sub_traces_witness:
  "trace_sub_traces (tt_traces child_open_tracer ! 0) = 1
   \<and> later_children (tt_traces child_open_tracer) 0 = 1
   \<and> trace_sub_traces (tt_traces child_open_tracer ! 1) = 0
   \<and> later_children (tt_traces child_open_tracer) 1 = 0
   \<and> (\<exists>st1. tt_on_execution_start (\<lambda>a. True) child_open_tracer (delegate_msg\<lparr>msg_depth := 2\<rparr>) []
               = Inr st1
          \<and> trace_trace_address (tt_traces st1 ! 2) = [0, 0]
          \<and> trace_sub_traces (tt_traces st1 ! 1) = 1)"
proof -
  have t: "tt_traces child_open_tracer =
            [parent_trace\<lparr>trace_sub_traces := 1\<rparr>,
             (new_trace False delegate_msg [])\<lparr>trace_trace_address := [0]\<rparr>]"
    and s: "tt_index_stack child_open_tracer = [1, 0]"
    by (simp_all add: child_open_tracer_def)
  from trace_address_and_sub_traces [OF child_open_tracer_reachable]
  have counts: "\<forall>i < length (tt_traces child_open_tracer).
            trace_sub_traces (tt_traces child_open_tracer ! i) = later_children (tt_traces child_open_tracer) i"
    and start: "\<exists>st1. tt_on_execution_start (\<lambda>a. True) child_open_tracer (delegate_msg\<lparr>msg_depth := 2\<rparr>) []
                   = Inr st1
               \<and> tt_index_stack st1 = length (tt_traces child_open_tracer) # 1 # [0]
               \<and> trace_trace_address (tt_traces st1 ! length (tt_traces child_open_tracer))
                   = trace_trace_address (tt_traces child_open_tracer ! 1)
                     @ [trace_sub_traces (tt_traces child_open_tracer ! 1)]
               \<and> trace_sub_traces (tt_traces st1 ! 1) = trace_sub_traces (tt_traces child_open_tracer ! 1) + 1"
    using s by (simp_all add: delegate_msg_def)
  have c0: "later_children (tt_traces child_open_tracer) 0 = trace_sub_traces (tt_traces child_open_tracer ! 0)"
    and c1: "later_children (tt_traces child_open_tracer) 1 = trace_sub_traces (tt_traces child_open_tracer ! 1)"
    using counts [rule_format, of 0] counts [rule_format, of 1] by (simp_all add: t)
  show ?thesis
    using start unfolding c0 c1
    by (auto simp: t new_trace_fields numeral_2_eq_2)
qed

subsection \<open>The orchestrator and the state diff\<close>

text \<open>
  Claim C1, as the code has it. The list \<open>trace_block\<close> returns always ends with the
  reward trace, of type \<open>reward\<close>, with the block number and hash, and the action
  \<open>RewardAction\<close> of author the block beneficiary and reward type \<open>block\<close>; what
  depends on the chain configuration is only the value, which is the miner reward of
  \<open>compute_reward\<close> when the configuration has the \<open>ethash\<close> member, and 0 when it
  has not.
\<close>

theorem trace_block_reward_trace:
  "trace_block ext chain_config w block_with_hash \<noteq> []
   \<and> last (trace_block ext chain_config w block_with_hash) =
       empty_Trace
         \<lparr>trace_block_number := Some (block_number (bwh_block block_with_hash)),
          trace_block_hash := Some (bwh_hash block_with_hash),
          trace_type := ''reward'',
          trace_action := Reward_Action
            \<lparr>ra_author = block_beneficiary (bwh_block block_with_hash),
             ra_reward_type = ''block'',
             ra_value = (if ''ethash'' \<in> set (cc_config chain_config)
                         then br_miner_reward (ext_compute_reward ext chain_config
                                                 (bwh_block block_with_hash))
                         else 0)\<rparr>\<rparr>"
  by (simp add: trace_block_def reward_trace_def Let_def count_list_0_iff)

theorem trace_block_reward_trace_witness:
  "trace_type (last (trace_block simple_collaborators ethash_config () one_tx_block)) = ''reward''
   \<and> trace_action (last (trace_block simple_collaborators ethash_config () one_tx_block)) =
       Reward_Action \<lparr>ra_author = 0xc0, ra_reward_type = ''block'', ra_value = 2000000000000000000\<rparr>"
  using trace_block_reward_trace [of simple_collaborators ethash_config "()" one_tx_block]
  by (simp add: ethash_config_def one_tx_block_def simple_collaborators_def)

text \<open>
  Claim C1 as stated fails: for a chain configuration without the \<open>ethash\<close> member,
  the result for a block of one transaction is a call trace followed by the reward
  trace, with value 0.
\<close>

theorem trace_block_reward_counterexample:
  "''ethash'' \<notin> set (cc_config no_ethash_config)
   \<and> map trace_type (trace_block simple_collaborators no_ethash_config () one_tx_block)
       = [''call'', ''reward'']
   \<and> trace_action (last (trace_block simple_collaborators no_ethash_config () one_tx_block)) =
       Reward_Action \<lparr>ra_author = 0xc0, ra_reward_type = ''block'', ra_value = 0\<rparr>"
  by (simp add: trace_block_def reward_trace_def Let_def no_ethash_config_def one_tx_block_def
        simple_collaborators_def trace_block_transactions_def decorate_def one_trace_call_def
        prepare_traces_def with_sender_def parent_trace_def new_trace_def empty_Trace_def)

text \<open>
  Claim C9. In \<open>trace_calls\<close>, if the call at index \<open>i\<close> is the first whose execution
  returns a pre-check error, with message \<open>m\<close>, the result has no traces and the
  pre-check error \<open>first run for txIndex i error: m\<close>; the world is left as call \<open>i\<close>
  left it and the whole outcome is that of the calls up to \<open>i\<close> alone, so no later
  call is executed. If no call returns a pre-check error, there is no pre-check error
  and every call contributes its traces, with the output set, in order.
\<close>

lemma call_outcomes_take:
  "call_outcomes ext block w k (take n calls) = take n (call_outcomes ext block w k calls)"
proof (induction calls arbitrary: w k n)
  case Nil
  then show ?case by simp
next
  case (Cons c cs)
  then show ?case by (cases n) (simp_all add: Let_def)
qed

lemma length_call_outcomes: "length (call_outcomes ext block w k calls) = length calls"
  by (induction calls arbitrary: w k) (simp_all add: Let_def)

lemma trace_calls_loop_error:
  assumes "i < length calls"
    and "er_pre_check_error (fst (snd (call_outcomes ext block w k calls ! i))) = Some m"
    and "\<forall>j<i. er_pre_check_error (fst (snd (call_outcomes ext block w k calls ! j))) = None"
  shows "trace_calls_loop ext block w k calls result =
           (fst (call_outcomes ext block w k calls ! i),
            result\<lparr>tmr_pre_check_error :=
                      Some (''first run for txIndex '' @ dec_of_nat (k + i) @ '' error: '' @ m),
                    tmr_traces := []\<rparr>)"
  using assms
proof (induction calls arbitrary: w k i result)
  case Nil
  then show ?case by simp
next
  case (Cons c cs)
  let ?out = "ext_call ext w block (ext_to_transaction ext (tcall_call c)) (int k)
                (tcall_trace_config c) (prepare_traces (tcall_trace_config c) empty_TraceCallTraces)"
  obtain w1 er traces1 where out: "?out = (w1, er, traces1)"
    by (cases ?out) auto
  show ?case
  proof (cases i)
    case 0
    then have "er_pre_check_error er = Some m"
      using Cons.prems(2) out by (simp add: Let_def)
    then show ?thesis
      using 0 out by (simp add: Let_def)
  next
    case (Suc i')
    have none: "er_pre_check_error er = None"
      using Cons.prems(3) [rule_format, of 0] Suc out by (simp add: Let_def)
    have tail: "call_outcomes ext block w k (c # cs) ! Suc j
                  = call_outcomes ext block (ext_reset ext w1) (k + 1) cs ! j" for j
      using out by (simp add: Let_def)
    have p1: "i' < length cs"
      using Cons.prems(1) Suc by simp
    have p2: "er_pre_check_error (fst (snd (call_outcomes ext block (ext_reset ext w1) (k + 1) cs ! i'))) = Some m"
      using Cons.prems(2) Suc tail by simp
    have p3: "\<forall>j<i'. er_pre_check_error (fst (snd (call_outcomes ext block (ext_reset ext w1) (k + 1) cs ! j))) = None"
      using Cons.prems(3) Suc tail by auto
    show ?thesis
      using Cons.IH [OF p1 p2 p3] none out Suc tail
      by (simp add: Let_def)
  qed
qed

lemma trace_calls_loop_ok:
  assumes "\<forall>j<length calls. er_pre_check_error (fst (snd (call_outcomes ext block w k calls ! j))) = None"
  shows "snd (trace_calls_loop ext block w k calls result) =
           result\<lparr>tmr_traces := tmr_traces result
                     @ map (\<lambda>out. (snd (snd out))\<lparr>tct_output := ''0x'' @ to_hex (er_data (fst (snd out)))\<rparr>)
                         (call_outcomes ext block w k calls)\<rparr>"
  using assms
proof (induction calls arbitrary: w k result)
  case Nil
  then show ?case by simp
next
  case (Cons c cs)
  let ?out = "ext_call ext w block (ext_to_transaction ext (tcall_call c)) (int k)
                (tcall_trace_config c) (prepare_traces (tcall_trace_config c) empty_TraceCallTraces)"
  obtain w1 er traces1 where out: "?out = (w1, er, traces1)"
    by (cases ?out) auto
  have none: "er_pre_check_error er = None"
    using Cons.prems [rule_format, of 0] out by (simp add: Let_def)
  have tail: "call_outcomes ext block w k (c # cs) ! Suc j
                = call_outcomes ext block (ext_reset ext w1) (k + 1) cs ! j" for j
    using out by (simp add: Let_def)
  have p: "\<forall>j<length cs. er_pre_check_error (fst (snd (call_outcomes ext block (ext_reset ext w1) (k + 1) cs ! j))) = None"
    using Cons.prems tail by auto
  show ?case
    using Cons.IH [OF p] none out
    by (simp add: Let_def)
qed

theorem trace_calls_first_error:
  "(i < length calls
      \<and> er_pre_check_error (fst (snd (call_outcomes ext block w 0 calls ! i))) = Some m
      \<and> (\<forall>j<i. er_pre_check_error (fst (snd (call_outcomes ext block w 0 calls ! j))) = None)
    \<longrightarrow> snd (trace_calls ext w block calls) =
          \<lparr>tmr_traces = [],
           tmr_pre_check_error = Some (''first run for txIndex '' @ dec_of_nat i @ '' error: '' @ m)\<rparr>
        \<and> fst (trace_calls ext w block calls) = fst (call_outcomes ext block w 0 calls ! i)
        \<and> trace_calls ext w block calls = trace_calls ext w block (take (Suc i) calls))
   \<and> ((\<forall>j<length calls. er_pre_check_error (fst (snd (call_outcomes ext block w 0 calls ! j))) = None)
    \<longrightarrow> tmr_pre_check_error (snd (trace_calls ext w block calls)) = None
        \<and> length (tmr_traces (snd (trace_calls ext w block calls))) = length calls
        \<and> tmr_traces (snd (trace_calls ext w block calls)) =
            map (\<lambda>out. (snd (snd out))\<lparr>tct_output := ''0x'' @ to_hex (er_data (fst (snd out)))\<rparr>)
              (call_outcomes ext block w 0 calls))"
proof (intro conjI impI)
  assume a: "i < length calls
      \<and> er_pre_check_error (fst (snd (call_outcomes ext block w 0 calls ! i))) = Some m
      \<and> (\<forall>j<i. er_pre_check_error (fst (snd (call_outcomes ext block w 0 calls ! j))) = None)"
  let ?res = "\<lparr>tmr_traces = [],
           tmr_pre_check_error = Some (''first run for txIndex '' @ dec_of_nat i @ '' error: '' @ m)\<rparr>"
  have full: "trace_calls ext w block calls = (fst (call_outcomes ext block w 0 calls ! i), ?res)"
    using a trace_calls_loop_error [of i calls ext block w 0 m empty_TraceManyCallResult]
    by (simp add: trace_calls_def empty_TraceManyCallResult_def)
  have i_take: "i < length (take (Suc i) calls)"
    using a by simp
  have nth_take: "call_outcomes ext block w 0 (take (Suc i) calls) ! j = call_outcomes ext block w 0 calls ! j"
    if "j \<le> i" for j
    using that by (simp add: call_outcomes_take)
  have prefix: "trace_calls ext w block (take (Suc i) calls)
                  = (fst (call_outcomes ext block w 0 calls ! i), ?res)"
    using a i_take nth_take
          trace_calls_loop_error [of i "take (Suc i) calls" ext block w 0 m empty_TraceManyCallResult]
    by (simp add: trace_calls_def empty_TraceManyCallResult_def)
  show "snd (trace_calls ext w block calls) = ?res"
    using full by simp
  show "fst (trace_calls ext w block calls) = fst (call_outcomes ext block w 0 calls ! i)"
    using full by simp
  show "trace_calls ext w block calls = trace_calls ext w block (take (Suc i) calls)"
    using full prefix by simp
next
  assume b: "\<forall>j<length calls. er_pre_check_error (fst (snd (call_outcomes ext block w 0 calls ! j))) = None"
  have r: "snd (trace_calls ext w block calls) =
             empty_TraceManyCallResult\<lparr>tmr_traces := tmr_traces empty_TraceManyCallResult
                     @ map (\<lambda>out. (snd (snd out))\<lparr>tct_output := ''0x'' @ to_hex (er_data (fst (snd out)))\<rparr>)
                         (call_outcomes ext block w 0 calls)\<rparr>"
    unfolding trace_calls_def using b by (rule trace_calls_loop_ok)
  show "tmr_pre_check_error (snd (trace_calls ext w block calls)) = None"
    unfolding r by (simp add: empty_TraceManyCallResult_def)
  show "tmr_traces (snd (trace_calls ext w block calls)) =
            map (\<lambda>out. (snd (snd out))\<lparr>tct_output := ''0x'' @ to_hex (er_data (fst (snd out)))\<rparr>)
              (call_outcomes ext block w 0 calls)"
    unfolding r by (simp add: empty_TraceManyCallResult_def)
  then show "length (tmr_traces (snd (trace_calls ext w block calls))) = length calls"
    by (simp add: length_call_outcomes)
qed

theorem trace_calls_first_error_witness:
  "snd (trace_calls simple_collaborators () (bwh_block one_tx_block) three_calls)
     = \<lparr>tmr_traces = [],
        tmr_pre_check_error = Some ''first run for txIndex 1 error: insufficient funds''\<rparr>
   \<and> trace_calls simple_collaborators () (bwh_block one_tx_block) three_calls
     = trace_calls simple_collaborators () (bwh_block one_tx_block) (take (Suc 1) three_calls)"
proof -
  have msg: "''first run for txIndex '' @ dec_of_nat 1 @ '' error: '' @ ''insufficient funds''
               = ''first run for txIndex 1 error: insufficient funds''"
    by code_simp
  have outs: "map (\<lambda>out. er_pre_check_error (fst (snd out)))
                (call_outcomes simple_collaborators (bwh_block one_tx_block) () 0 three_calls)
              = [None, Some ''insufficient funds'', None]"
    by (simp add: three_calls_def simple_collaborators_def one_trace_call_def Let_def)
  have len: "length (call_outcomes simple_collaborators (bwh_block one_tx_block) () 0 three_calls) = 3"
    by (simp add: length_call_outcomes three_calls_def)
  have e1: "er_pre_check_error (fst (snd (call_outcomes simple_collaborators (bwh_block one_tx_block) () 0
              three_calls ! 1))) = Some ''insufficient funds''"
    using arg_cong [OF outs, of "\<lambda>xs. xs ! 1"] len by simp
  have e0: "\<forall>j<1. er_pre_check_error (fst (snd (call_outcomes simple_collaborators (bwh_block one_tx_block) () 0
              three_calls ! j))) = None"
    using arg_cong [OF outs, of "\<lambda>xs. xs ! 0"] len by simp
  have i: "1 < length three_calls"
    by (simp add: three_calls_def)
  have "snd (trace_calls simple_collaborators () (bwh_block one_tx_block) three_calls)
          = \<lparr>tmr_traces = [],
             tmr_pre_check_error = Some (''first run for txIndex '' @ dec_of_nat 1 @ '' error: ''
                                           @ ''insufficient funds'')\<rparr>
        \<and> trace_calls simple_collaborators () (bwh_block one_tx_block) three_calls
          = trace_calls simple_collaborators () (bwh_block one_tx_block) (take (Suc 1) three_calls)"
    using trace_calls_first_error [of 1 three_calls simple_collaborators "bwh_block one_tx_block" "()"
            "''insufficient funds''"] i e1 e0
    by blast
  then show ?thesis
    unfolding msg .
qed

text \<open>
  Claim C2 on the code: a touched address that exists neither in the shadow baseline
  nor in the intra-block state. \<open>state_diff_[address_key]\<close> has inserted the default
  entry before the existence tests, and no branch erases it: the entry stays in the
  map with all of its four fields unchanged.
\<close>

theorem state_diff_keeps_unchanged_entry:
  "sa_exists (sdt_state_addresses fresh_state_diff_tracer) 0xdead = False
   \<and> ibs_exists absent_state 0xdead = False
   \<and> sdt_state_diff (sdt_on_reward_granted b32 fresh_state_diff_tracer call_result absent_state)
       ''0x000000000000000000000000000000000000dead''
     = Some \<lparr>sd_balance = \<lparr>dv_from = None, dv_to = None\<rparr>,
             sd_code = \<lparr>dv_from = None, dv_to = None\<rparr>,
             sd_nonce = \<lparr>dv_from = None, dv_to = None\<rparr>,
             sd_storage = Map.empty\<rparr>"
proof -
  have key: "to_hex (address_bytes 0xdead) = ''000000000000000000000000000000000000dead''"
    by code_simp
  show ?thesis
    by (simp add: sdt_on_reward_granted_def sdt_touched_address_def Let_def key
          fresh_state_diff_tracer_def absent_state_def empty_StateDiffEntry_def unchanged_def)
qed


end
